theory Spec2Isabelle
  imports Complex_Main
begin

section \<open>JavaScript numbers: IEEE 754 binary64\<close>

text \<open>
  A TypeScript \<open>number\<close> is an IEEE 754 double.  A finite double is kept as the rational
  it denotes; \<open>Fin 0\<close> is \<open>+0\<close> and \<open>NZero\<close> is \<open>-0\<close>.  Every arithmetic operation
  computes the exact rational result and rounds it to the nearest double, ties to even
  (\<open>rnd\<close>), overflowing to an infinity from \<open>2^1024\<close> on and underflowing gradually
  through the subnormals (multiples of \<open>2^-1074\<close>).
\<close>

datatype jsnum = NaN | PInf | NInf | NZero | Fin rat

definition pow2 :: "int \<Rightarrow> rat" where
  "pow2 k = (if 0 \<le> k then 2 ^ nat k else 1 / 2 ^ nat (- k))"

function bitlen :: "int \<Rightarrow> int" where
  "bitlen n = (if n \<le> 0 then 0 else 1 + bitlen (n div 2))"
  by pat_completeness auto
termination
  by (relation "measure nat") auto

declare bitlen.simps [simp del]

definition ilog2 :: "rat \<Rightarrow> int" where
  \<comment> \<open>\<open>\<lfloor>log\<^sub>2 a\<rfloor>\<close> of a positive rational, from the bit length of its integer part
      (of the integer part of \<open>1 / a\<close> below one)\<close>
  "ilog2 a = (if 1 \<le> a then bitlen \<lfloor>a\<rfloor> - 1
              else if a * pow2 (bitlen \<lfloor>1 / a\<rfloor> - 1) = 1 then - (bitlen \<lfloor>1 / a\<rfloor> - 1)
              else - (bitlen \<lfloor>1 / a\<rfloor> - 1) - 1)"

definition round_even :: "rat \<Rightarrow> int" where
  \<comment> \<open>the nearest integer, a tie going to the even one\<close>
  "round_even r = (if r - of_int \<lfloor>r\<rfloor> < 1 / 2 then \<lfloor>r\<rfloor>
                   else if 1 / 2 < r - of_int \<lfloor>r\<rfloor> then \<lfloor>r\<rfloor> + 1
                   else if even \<lfloor>r\<rfloor> then \<lfloor>r\<rfloor> else \<lfloor>r\<rfloor> + 1)"

definition ulp :: "rat \<Rightarrow> rat" where
  \<comment> \<open>the spacing of the doubles around a positive \<open>a\<close>: 53 significant bits, and
      \<open>2^-1074\<close> throughout the subnormal range\<close>
  "ulp a = pow2 (max (ilog2 a) (- 1022) - 52)"

definition round_to :: "rat \<Rightarrow> rat \<Rightarrow> rat" where
  "round_to u a = of_int (round_even (a / u)) * u"

definition pack :: "bool \<Rightarrow> rat \<Rightarrow> jsnum" where
  \<comment> \<open>a sign and a rounded magnitude: overflow from \<open>2^1024\<close> on, a signed zero at \<open>0\<close>\<close>
  "pack neg r = (if pow2 1024 \<le> r then (if neg then NInf else PInf)
                 else if r = 0 then (if neg then NZero else Fin 0)
                 else Fin (if neg then - r else r))"

definition rnd :: "rat \<Rightarrow> jsnum" where
  "rnd q = (if q = 0 then Fin 0 else pack (q < 0) (round_to (ulp \<bar>q\<bar>) \<bar>q\<bar>))"

definition lit :: "rat \<Rightarrow> jsnum" where
  \<comment> \<open>a decimal literal of the source denotes the double nearest to it\<close>
  "lit q = rnd q"

fun is_nan :: "jsnum \<Rightarrow> bool" where
  "is_nan NaN = True"
| "is_nan _ = False"

fun is_inf :: "jsnum \<Rightarrow> bool" where
  "is_inf PInf = True"
| "is_inf NInf = True"
| "is_inf _ = False"

fun is_zero :: "jsnum \<Rightarrow> bool" where
  "is_zero NZero = True"
| "is_zero (Fin q) = (q = 0)"
| "is_zero _ = False"

fun is_neg :: "jsnum \<Rightarrow> bool" where
  "is_neg NInf = True"
| "is_neg NZero = True"
| "is_neg (Fin q) = (q < 0)"
| "is_neg _ = False"

fun fval :: "jsnum \<Rightarrow> rat" where
  "fval (Fin q) = q"
| "fval _ = 0"

definition signed_inf :: "bool \<Rightarrow> jsnum" where
  "signed_inf neg = (if neg then NInf else PInf)"

definition signed_zero :: "bool \<Rightarrow> jsnum" where
  "signed_zero neg = (if neg then NZero else Fin 0)"

fun js_neg :: "jsnum \<Rightarrow> jsnum" where
  "js_neg NaN = NaN"
| "js_neg PInf = NInf"
| "js_neg NInf = PInf"
| "js_neg NZero = Fin 0"
| "js_neg (Fin q) = (if q = 0 then NZero else Fin (- q))"

definition js_add :: "jsnum \<Rightarrow> jsnum \<Rightarrow> jsnum" where
  "js_add x y =
     (if is_nan x \<or> is_nan y then NaN
      else if is_inf x then (if is_inf y \<and> x \<noteq> y then NaN else x)
      else if is_inf y then y
      else if x = NZero \<and> y = NZero then NZero
      else rnd (fval x + fval y))"

definition js_sub :: "jsnum \<Rightarrow> jsnum \<Rightarrow> jsnum" where
  "js_sub x y = js_add x (js_neg y)"

definition js_mul :: "jsnum \<Rightarrow> jsnum \<Rightarrow> jsnum" where
  "js_mul x y =
     (if is_nan x \<or> is_nan y then NaN
      else if is_inf x \<or> is_inf y
        then (if is_zero x \<or> is_zero y then NaN else signed_inf (is_neg x \<noteq> is_neg y))
      else if is_zero x \<or> is_zero y then signed_zero (is_neg x \<noteq> is_neg y)
      else rnd (fval x * fval y))"

definition js_div :: "jsnum \<Rightarrow> jsnum \<Rightarrow> jsnum" where
  "js_div x y =
     (if is_nan x \<or> is_nan y then NaN
      else if is_inf x then (if is_inf y then NaN else signed_inf (is_neg x \<noteq> is_neg y))
      else if is_inf y then signed_zero (is_neg x \<noteq> is_neg y)
      else if is_zero y then (if is_zero x then NaN else signed_inf (is_neg x \<noteq> is_neg y))
      else if is_zero x then signed_zero (is_neg x \<noteq> is_neg y)
      else rnd (fval x / fval y))"

definition js_lt :: "jsnum \<Rightarrow> jsnum \<Rightarrow> bool" where
  \<comment> \<open>\<open>x < y\<close>: false when either side is NaN; the two zeros compare equal\<close>
  "js_lt x y =
     (if is_nan x \<or> is_nan y then False
      else if x = PInf \<or> y = NInf then False
      else if x = NInf \<or> y = PInf then True
      else fval x < fval y)"

definition js_gt :: "jsnum \<Rightarrow> jsnum \<Rightarrow> bool" where
  "js_gt x y = js_lt y x"

definition js_eq :: "jsnum \<Rightarrow> jsnum \<Rightarrow> bool" where
  \<comment> \<open>\<open>x === y\<close> on numbers\<close>
  "js_eq x y =
     (if is_nan x \<or> is_nan y then False
      else if is_inf x \<or> is_inf y then x = y
      else fval x = fval y)"

definition js_le :: "jsnum \<Rightarrow> jsnum \<Rightarrow> bool" where
  "js_le x y = (js_lt x y \<or> js_eq x y)"

definition js_ge :: "jsnum \<Rightarrow> jsnum \<Rightarrow> bool" where
  "js_ge x y = js_le y x"

definition Math_max :: "jsnum \<Rightarrow> jsnum \<Rightarrow> jsnum" where
  \<comment> \<open>NaN if either argument is NaN; \<open>+0\<close> counts as larger than \<open>-0\<close>\<close>
  "Math_max x y =
     (if is_nan x \<or> is_nan y then NaN
      else if js_lt x y then y
      else if js_lt y x then x
      else if x = NZero then y else x)"

definition Math_min :: "jsnum \<Rightarrow> jsnum \<Rightarrow> jsnum" where
  "Math_min x y =
     (if is_nan x \<or> is_nan y then NaN
      else if js_lt x y then x
      else if js_lt y x then y
      else if y = NZero then y else x)"

fun Math_round :: "jsnum \<Rightarrow> jsnum" where
  \<comment> \<open>the nearest integer, a tie going towards \<open>+\<infinity>\<close>; a zero result keeps the sign of the argument\<close>
  "Math_round (Fin q) =
     (let n = \<lfloor>q + 1 / 2\<rfloor>
      in if n = 0 then (if q < 0 then NZero else Fin 0) else Fin (of_int n))"
| "Math_round x = x"

fun Math_floor :: "jsnum \<Rightarrow> jsnum" where
  "Math_floor (Fin q) = Fin (of_int \<lfloor>q\<rfloor>)"
| "Math_floor x = x"

definition or_zero :: "jsnum \<Rightarrow> jsnum" where
  \<comment> \<open>\<open>x || 0\<close>: the falsy numbers are the zeros and NaN\<close>
  "or_zero x = (if is_nan x \<or> is_zero x then Fin 0 else x)"

section \<open>The NBA stats client (\<open>services/nbaApi\<close>)\<close>

text \<open>
  The rows of the two statistics endpoints.  The field \<open>MIN\<close> is written \<open>MIN'\<close>, since
  \<open>MIN\<close> is reserved syntax in HOL.  Field names shared by the two records denote the
  player's field; the team's are written qualified (\<open>NBATeamStats.W_PCT\<close>).
\<close>

record NBATeamStats =
  TEAM_ID :: jsnum
  TEAM_NAME :: string
  TEAM_ABBREVIATION :: string
  TEAM_CITY :: string
  GP :: jsnum
  W :: jsnum
  L :: jsnum
  W_PCT :: jsnum
  MIN' :: jsnum
  FGM :: jsnum
  FGA :: jsnum
  FG_PCT :: jsnum
  FG3M :: jsnum
  FG3A :: jsnum
  FG3_PCT :: jsnum
  FTM :: jsnum
  FTA :: jsnum
  FT_PCT :: jsnum
  OREB :: jsnum
  DREB :: jsnum
  REB :: jsnum
  AST :: jsnum
  TOV :: jsnum
  STL :: jsnum
  BLK :: jsnum
  BLKA :: jsnum
  PF :: jsnum
  PFD :: jsnum
  PTS :: jsnum
  PLUS_MINUS :: jsnum

record NBAPlayerStats =
  PLAYER_ID :: jsnum
  PLAYER_NAME :: string
  TEAM_ID :: jsnum
  TEAM_ABBREVIATION :: string
  AGE :: jsnum
  GP :: jsnum
  W :: jsnum
  L :: jsnum
  W_PCT :: jsnum
  MIN' :: jsnum
  FGM :: jsnum
  FGA :: jsnum
  FG_PCT :: jsnum
  FG3M :: jsnum
  FG3A :: jsnum
  FG3_PCT :: jsnum
  FTM :: jsnum
  FTA :: jsnum
  FT_PCT :: jsnum
  OREB :: jsnum
  DREB :: jsnum
  REB :: jsnum
  AST :: jsnum
  TOV :: jsnum
  STL :: jsnum
  BLK :: jsnum
  BLKA :: jsnum
  PF :: jsnum
  PFD :: jsnum
  PTS :: jsnum
  PLUS_MINUS :: jsnum
  NBA_FANTASY_PTS :: jsnum
  DD2 :: jsnum
  TD3 :: jsnum
  WNBA_FANTASY_PTS :: jsnum

text \<open>\<open>calculatePER\<close>, operation by operation, in JavaScript's evaluation order.\<close>

definition per_factor :: "NBAPlayerStats \<Rightarrow> jsnum" where
  "per_factor p =
     js_sub (js_div (Fin 2) (Fin 3))
       (js_div (js_mul (lit (1 / 2)) (js_div (AST p) (js_add (FGM p) (lit (1 / 1000)))))
               (js_div (js_mul (Fin 2) (js_add (FGM p) (lit (1 / 1000))))
                       (js_add (FTM p) (lit (1 / 1000)))))"

definition VOP_denominator :: "NBAPlayerStats \<Rightarrow> jsnum" where
  "VOP_denominator p =
     js_add (js_add (js_sub (FGA p) (REB p)) (TOV p)) (js_mul (lit (44 / 100)) (FTA p))"

definition per_VOP :: "NBAPlayerStats \<Rightarrow> jsnum" where
  "per_VOP p = js_div (PTS p) (VOP_denominator p)"

definition DRB_PCT :: jsnum where
  "DRB_PCT = lit (2 / 10)"

definition per_uPER :: "NBAPlayerStats \<Rightarrow> jsnum" where
  "per_uPER p =
    (let factor = per_factor p; VOP = per_VOP p;
         t1 = FG3M p;
         t2 = js_mul (js_div (Fin 2) (Fin 3)) (AST p);
         t3 = js_mul (js_sub (Fin 2)
                        (js_mul factor (js_div (AST p) (js_add (FGM p) (lit (1 / 1000))))))
                     (FGM p);
         t4 = js_mul (js_mul (FTM p) (lit (1 / 2)))
                (js_add
                   (js_add (Fin 1)
                      (js_sub (Fin 1) (js_div (AST p) (js_add (FGM p) (lit (1 / 1000))))))
                   (js_mul (js_div (Fin 2) (Fin 3))
                      (js_div (AST p) (js_add (FGM p) (lit (1 / 1000))))));
         t5 = js_mul VOP (TOV p);
         t6 = js_mul (js_mul VOP DRB_PCT) (js_sub (FGA p) (FGM p));
         t7 = js_mul
                (js_mul (js_mul VOP (lit (44 / 100)))
                   (js_add (lit (44 / 100)) (js_mul (lit (56 / 100)) DRB_PCT)))
                (js_sub (FTA p) (FTM p));
         t8 = js_mul (js_mul VOP (js_sub (Fin 1) DRB_PCT)) (js_sub (REB p) (REB p));
         t9 = js_mul (js_mul VOP DRB_PCT) (REB p);
         t10 = js_mul VOP (STL p);
         t11 = js_mul (js_mul VOP DRB_PCT) (BLK p);
         t12 = js_mul (PF p)
                 (js_sub (js_div (FTM p) (PF p))
                    (js_mul (js_mul (lit (44 / 100)) (js_div (FTA p) (PF p))) VOP))
     in js_mul (js_div (Fin 1) (MIN' p))
          (js_sub
            (js_add (js_add (js_add (js_add
              (js_sub (js_sub (js_sub
                (js_add (js_add (js_add t1 t2) t3) t4) t5) t6) t7) t8) t9) t10) t11) t12))"

definition scaled_uPER :: "NBAPlayerStats \<Rightarrow> jsnum" where
  \<comment> \<open>\<open>uPER * 15\<close>, the argument of the clamp\<close>
  "scaled_uPER p = js_mul (per_uPER p) (Fin 15)"

definition calculatePER :: "NBAPlayerStats \<Rightarrow> jsnum" where
  "calculatePER p =
     (if js_eq (MIN' p) (Fin 0) then Fin 0
      else Math_max (Fin 0) (Math_min (Fin 40) (scaled_uPER p)))"


text \<open>
  The request and its two clients.  What \<open>axios.get\<close> and the reading of
  \<open>data.resultSets[0]\<close> do is an input of the model: the request is rejected (\<open>Inl\<close>), or
  it delivers a body whose rows cannot be read (\<open>Inr None\<close>, the read throws), or it
  delivers the rows (\<open>Inr (Some rows)\<close>).  A rejected promise is an \<open>Inl\<close> result.
\<close>

datatype js_error = Error string

definition makeRequest :: "string \<Rightarrow> js_error + 'a \<Rightarrow> js_error + 'a" where
  "makeRequest endpoint response =
     (case response of
        Inl e \<Rightarrow> Inl (Error (''Failed to fetch data from NBA API: '' @ endpoint))
      | Inr data \<Rightarrow> Inr data)"

definition getPlayerStats ::
  "js_error + NBAPlayerStats list option \<Rightarrow> js_error + NBAPlayerStats list" where
  "getPlayerStats response =
     (case makeRequest ''leaguedashplayerstats'' response of
        Inl e \<Rightarrow> Inr []
      | Inr None \<Rightarrow> Inr []
      | Inr (Some rows) \<Rightarrow> Inr rows)"

definition getTeamStats ::
  "js_error + NBATeamStats list option \<Rightarrow> js_error + NBATeamStats list" where
  "getTeamStats response =
     (case makeRequest ''leaguedashteamstats'' response of
        Inl e \<Rightarrow> Inr []
      | Inr None \<Rightarrow> Inr []
      | Inr (Some rows) \<Rightarrow> Inr rows)"

section \<open>The data service (\<open>utils/realNbaData\<close>)\<close>

text \<open>
  \<open>id\<close> and \<open>abbreviation\<close> are written \<open>id'\<close> and \<open>abbreviation'\<close>.  \<open>position\<close> is \<open>None\<close> for JavaScript's \<open>undefined\<close>, which
  an index outside the array of positions reads.  Field names shared by the two records
  denote the player's field.
\<close>

record Team =
  id' :: string
  name :: string
  city :: string
  abbreviation' :: string
  wins :: jsnum
  losses :: jsnum
  winPercentage :: jsnum
  pointsPerGame :: jsnum
  reboundsPerGame :: jsnum
  assistsPerGame :: jsnum
  fieldGoalPercentage :: jsnum
  threePointPercentage :: jsnum
  freeThrowPercentage :: jsnum

record Player =
  id' :: string
  name :: string
  team :: string
  position :: "string option"
  gamesPlayed :: jsnum
  minutes :: jsnum
  points :: jsnum
  rebounds :: jsnum
  assists :: jsnum
  steals :: jsnum
  blocks :: jsnum
  turnovers :: jsnum
  fieldGoalsMade :: jsnum
  fieldGoalsAttempted :: jsnum
  threePointersMade :: jsnum
  threePointersAttempted :: jsnum
  freeThrowsMade :: jsnum
  freeThrowsAttempted :: jsnum
  per :: jsnum
  predictedPER :: jsnum

text \<open>
  What the runtime supplies: \<open>Number.prototype.toString\<close>, and the numbers that the
  successive calls of \<open>Math.random()\<close> return during one conversion.
\<close>

record js_env =
  toString :: "jsnum \<Rightarrow> string"
  random :: "nat \<Rightarrow> jsnum"

text \<open>
  The service object.  \<open>Date.now()\<close> is a whole number of milliseconds far below \<open>2^53\<close>,
  where the arithmetic of doubles is exact, so the times are integers.
\<close>

record RealNBADataService =
  playerStatsCache :: "NBAPlayerStats list"
  teamStatsCache :: "NBATeamStats list"
  lastFetchTime :: int

definition CACHE_DURATION :: int where
  "CACHE_DURATION = 5 * 60 * 1000"

definition new_RealNBADataService :: RealNBADataService where
  "new_RealNBADataService =
     \<lparr>playerStatsCache = [], teamStatsCache = [], lastFetchTime = 0\<rparr>"

text \<open>
  \<open>Array.prototype.sort\<close> with a comparator: a stable sort, in which \<open>a\<close> goes behind \<open>b\<close>
  when \<open>compare(a, b) > 0\<close> (a NaN from the comparator counts as \<open>0\<close>).  For a consistent
  comparator the standard fixes the result, and this insertion sort computes it.
\<close>

fun sort_insert :: "('a \<Rightarrow> 'a \<Rightarrow> jsnum) \<Rightarrow> 'a \<Rightarrow> 'a list \<Rightarrow> 'a list" where
  "sort_insert compare a [] = [a]"
| "sort_insert compare a (b # bs) =
     (if js_gt (compare a b) (Fin 0) then b # sort_insert compare a bs else a # b # bs)"

definition Array_sort :: "('a \<Rightarrow> 'a \<Rightarrow> jsnum) \<Rightarrow> 'a list \<Rightarrow> 'a list" where
  "Array_sort compare xs = foldr (sort_insert compare) xs []"

definition generateMLPrediction :: "jsnum \<Rightarrow> NBAPlayerStats \<Rightarrow> jsnum \<Rightarrow> jsnum" where
  \<comment> \<open>the first argument is what \<open>Math.random()\<close> returns\<close>
  "generateMLPrediction rand player actualPER =
    (let features = [PTS player, REB player, AST player, MIN' player,
                     FG_PCT player, FG3_PCT player, FT_PCT player,
                     STL player, BLK player, TOV player, GP player];
         weights = [lit (85 / 100), lit (61 / 100), lit (55 / 100), lit (72 / 100),
                    lit (68 / 100), lit (45 / 100), lit (38 / 100), lit (42 / 100),
                    lit (39 / 100), js_neg (lit (33 / 100)), lit (28 / 100)];
         prediction0 = foldl (\<lambda>prediction (feature, weight).
                          js_add prediction (js_mul (or_zero feature) weight))
                        (Fin 0) (zip features weights);
         prediction1 = js_add (js_div prediction0 (Fin 100)) (Fin 10);
         prediction2 = js_add prediction1 (js_mul (js_sub rand (lit (1 / 2))) (Fin 3))
     in Math_max (Fin 0) (Math_min (Fin 40) prediction2))"

definition getPlayerPosition :: "jsnum \<Rightarrow> string \<Rightarrow> string option" where
  \<comment> \<open>the first argument is what \<open>Math.random()\<close> returns\<close>
  "getPlayerPosition rand playerName =
    (let positions = [''PG'', ''SG'', ''SF'', ''PF'', ''C''];
         i = Math_floor (js_mul rand (Fin (of_nat (length positions))))
     in case i of
          Fin q \<Rightarrow> if 0 \<le> q \<and> q < of_nat (length positions)
                   then Some (positions ! nat \<lfloor>q\<rfloor>) else None
        | NZero \<Rightarrow> Some (positions ! 0)
        | _ \<Rightarrow> None)"

abbreviation round_tenth :: "jsnum \<Rightarrow> jsnum" where
  \<comment> \<open>\<open>Math.round(x * 10) / 10\<close>\<close>
  "round_tenth x \<equiv> js_div (Math_round (js_mul x (Fin 10))) (Fin 10)"

definition convert_player :: "js_env \<Rightarrow> nat \<Rightarrow> NBAPlayerStats \<Rightarrow> Player" where
  \<comment> \<open>the callback of \<open>map\<close> in \<open>convertToPlayerFormat\<close>, at index \<open>i\<close> of the filtered
      array: it draws two random numbers, the prediction's first\<close>
  "convert_player env i player =
    (let per = calculatePER player;
         predictedPER = generateMLPrediction (random env (2 * i)) player per
     in \<lparr>id' = toString env (PLAYER_ID player),
         name = PLAYER_NAME player,
         team = NBAPlayerStats.TEAM_ABBREVIATION player,
         position = getPlayerPosition (random env (2 * i + 1)) (PLAYER_NAME player),
         gamesPlayed = GP player,
         minutes = round_tenth (MIN' player),
         points = round_tenth (PTS player),
         rebounds = round_tenth (REB player),
         assists = round_tenth (AST player),
         steals = round_tenth (STL player),
         blocks = round_tenth (BLK player),
         turnovers = round_tenth (TOV player),
         fieldGoalsMade = round_tenth (FGM player),
         fieldGoalsAttempted = round_tenth (FGA player),
         threePointersMade = round_tenth (FG3M player),
         threePointersAttempted = round_tenth (FG3A player),
         freeThrowsMade = round_tenth (FTM player),
         freeThrowsAttempted = round_tenth (FTA player),
         per = round_tenth per,
         predictedPER = round_tenth predictedPER\<rparr>)"

definition converted_rows :: "js_env \<Rightarrow> NBAPlayerStats list \<Rightarrow> Player list" where
  \<comment> \<open>\<open>nbaPlayers.filter(...).map(...)\<close>, the array that \<open>sort\<close> then orders\<close>
  "converted_rows env nbaPlayers =
     map (\<lambda>(i, player). convert_player env i player)
       (enumerate 0 (filter (\<lambda>player. js_gt (GP player) (Fin 10)) nbaPlayers))"

definition convertToPlayerFormat :: "js_env \<Rightarrow> NBAPlayerStats list \<Rightarrow> Player list" where
  "convertToPlayerFormat env nbaPlayers =
     Array_sort (\<lambda>a b. js_sub (per b) (per a)) (converted_rows env nbaPlayers)"

text \<open>
  \<open>TEAM_NAME.replace(/^.*\s/, '')\<close> on a string of ASCII characters: the match starts at
  the beginning of the string, \<open>.*\<close> takes characters up to the first line terminator,
  and gives back as few as a following whitespace character needs.
\<close>

definition is_line_terminator :: "char \<Rightarrow> bool" where
  "is_line_terminator c = (c \<in> {CHR 0x0A, CHR 0x0D})"

definition is_space :: "char \<Rightarrow> bool" where
  "is_space c = (c \<in> {CHR '' '', CHR 0x09, CHR 0x0A, CHR 0x0B, CHR 0x0C, CHR 0x0D})"

definition replace_to_space :: "string \<Rightarrow> string" where
  "replace_to_space s =
    (let line = takeWhile (\<lambda>c. \<not> is_line_terminator c) s
     in if length line < length s then drop (length line + 1) s
        else if list_ex is_space s then rev (takeWhile (\<lambda>c. \<not> is_space c) (rev s))
        else s)"

definition convert_team :: "js_env \<Rightarrow> NBATeamStats \<Rightarrow> Team" where
  \<comment> \<open>the callback of \<open>map\<close> in \<open>convertToTeamFormat\<close>\<close>
  "convert_team env t =
     \<lparr>Team.id' = toString env (NBATeamStats.TEAM_ID t),
      Team.name = replace_to_space (TEAM_NAME t),
      city = TEAM_CITY t,
      abbreviation' = NBATeamStats.TEAM_ABBREVIATION t,
      wins = NBATeamStats.W t,
      losses = NBATeamStats.L t,
      winPercentage =
        js_div (Math_round (js_mul (NBATeamStats.W_PCT t) (Fin 1000))) (Fin 10),
      pointsPerGame = round_tenth (NBATeamStats.PTS t),
      reboundsPerGame = round_tenth (NBATeamStats.REB t),
      assistsPerGame = round_tenth (NBATeamStats.AST t),
      fieldGoalPercentage =
        js_div (Math_round (js_mul (NBATeamStats.FG_PCT t) (Fin 1000))) (Fin 10),
      threePointPercentage =
        js_div (Math_round (js_mul (NBATeamStats.FG3_PCT t) (Fin 1000))) (Fin 10),
      freeThrowPercentage =
        js_div (Math_round (js_mul (NBATeamStats.FT_PCT t) (Fin 1000))) (Fin 10)\<rparr>"

definition convertToTeamFormat :: "js_env \<Rightarrow> NBATeamStats list \<Rightarrow> Team list" where
  "convertToTeamFormat env nbaTeams =
     Array_sort (\<lambda>a b. js_sub (winPercentage b) (winPercentage a))
       (map (convert_team env) nbaTeams)"

text \<open>
  One call of \<open>fetchPlayerData\<close> or \<open>fetchTeamData\<close>, run to completion: \<open>now\<close> is what
  \<open>Date.now()\<close> returns at the cache test, \<open>now'\<close> what it returns after the awaited
  fetch, \<open>response\<close> what the request for the season would deliver.  The outcome holds
  the value the promise settles with (\<open>Inl\<close> a rejection), the service object afterwards,
  and the endpoints requested during the call.  The \<open>Inl\<close> branch is the \<open>catch\<close> block,
  which is entered before anything is assigned.  The rows are well typed, so that the
  conversion does not throw; console output is left out.
\<close>

record 'a outcome =
  returned :: "js_error + 'a list"
  service :: RealNBADataService
  requests :: "string list"

definition fetchPlayerData ::
  "js_env \<Rightarrow> int \<Rightarrow> int \<Rightarrow> js_error + NBAPlayerStats list option
     \<Rightarrow> RealNBADataService \<Rightarrow> Player outcome" where
  "fetchPlayerData env now now' response this =
    (if length (playerStatsCache this) > 0 \<and> now - lastFetchTime this < CACHE_DURATION
     then \<lparr>returned = Inr (convertToPlayerFormat env (playerStatsCache this)),
           service = this, requests = []\<rparr>
     else case getPlayerStats response of
            Inl error \<Rightarrow>
              \<lparr>returned = Inr [], service = this, requests = [''leaguedashplayerstats'']\<rparr>
          | Inr playerStats \<Rightarrow>
              \<lparr>returned = Inr (convertToPlayerFormat env playerStats),
               service = this\<lparr>playerStatsCache := playerStats, lastFetchTime := now'\<rparr>,
               requests = [''leaguedashplayerstats'']\<rparr>)"

definition fetchTeamData ::
  "js_env \<Rightarrow> int \<Rightarrow> int \<Rightarrow> js_error + NBATeamStats list option
     \<Rightarrow> RealNBADataService \<Rightarrow> Team outcome" where
  "fetchTeamData env now now' response this =
    (if length (teamStatsCache this) > 0 \<and> now - lastFetchTime this < CACHE_DURATION
     then \<lparr>returned = Inr (convertToTeamFormat env (teamStatsCache this)),
           service = this, requests = []\<rparr>
     else case getTeamStats response of
            Inl error \<Rightarrow>
              \<lparr>returned = Inr [], service = this, requests = [''leaguedashteamstats'']\<rparr>
          | Inr teamStats \<Rightarrow>
              \<lparr>returned = Inr (convertToTeamFormat env teamStats),
               service = this\<lparr>teamStatsCache := teamStats, lastFetchTime := now'\<rparr>,
               requests = [''leaguedashteamstats'']\<rparr>)"

section \<open>The reference algorithm of the specification\<close>

text \<open>
  Section 4.1 of the specification, step by step as it is worded there, over the same
  arithmetic of doubles: the guard on \<open>MIN\<close>, \<open>factor\<close> with \<open>\<epsilon> = 0.001\<close>, \<open>VOP\<close> without a
  guard, \<open>DRB_PCT = 0.2\<close>, the bracket of \<open>uPER\<close> summed from left to right, the scaling
  by 15 and the clamp.
\<close>

definition PERCalculator_spec :: "NBAPlayerStats \<Rightarrow> jsnum" where
  "PERCalculator_spec s =
    (if js_eq (MIN' s) (Fin 0) then Fin 0
     else
      let \<epsilon> = lit (1 / 1000);
          two_thirds = js_div (Fin 2) (Fin 3);
          a = js_div (AST s) (js_add (FGM s) \<epsilon>);
          factor = js_sub two_thirds
                     (js_div (js_mul (lit (1 / 2)) a)
                        (js_div (js_mul (Fin 2) (js_add (FGM s) \<epsilon>)) (js_add (FTM s) \<epsilon>)));
          VOP = js_div (PTS s)
                  (js_add (js_add (js_sub (FGA s) (REB s)) (TOV s))
                     (js_mul (lit (44 / 100)) (FTA s)));
          DRB = lit (2 / 10);
          b1 = js_add (FG3M s) (js_mul two_thirds (AST s));
          b2 = js_add b1 (js_mul (js_sub (Fin 2) (js_mul factor a)) (FGM s));
          b3 = js_add b2
                 (js_mul (js_mul (FTM s) (lit (1 / 2)))
                    (js_add (js_add (Fin 1) (js_sub (Fin 1) a)) (js_mul two_thirds a)));
          b4 = js_sub b3 (js_mul VOP (TOV s));
          b5 = js_sub b4 (js_mul (js_mul VOP DRB) (js_sub (FGA s) (FGM s)));
          b6 = js_sub b5
                 (js_mul
                    (js_mul (js_mul VOP (lit (44 / 100)))
                       (js_add (lit (44 / 100)) (js_mul (lit (56 / 100)) DRB)))
                    (js_sub (FTA s) (FTM s)));
          b7 = js_add b6 (js_mul (js_mul VOP (js_sub (Fin 1) DRB)) (js_sub (REB s) (REB s)));
          b8 = js_add b7 (js_mul (js_mul VOP DRB) (REB s));
          b9 = js_add b8 (js_mul VOP (STL s));
          b10 = js_add b9 (js_mul (js_mul VOP DRB) (BLK s));
          b11 = js_sub b10
                  (js_mul (PF s)
                     (js_sub (js_div (FTM s) (PF s))
                        (js_mul (js_mul (lit (44 / 100)) (js_div (FTA s) (PF s))) VOP)));
          uPER = js_mul (js_div (Fin 1) (MIN' s)) b11;
          result = js_mul uPER (Fin 15)
      in Math_max (Fin 0) (Math_min (Fin 40) result))"

text \<open>Rounding to the nearest integer with a tie going away from zero, as the
  specification words the rounding of the per-game fields.\<close>

fun round_half_away :: "jsnum \<Rightarrow> jsnum" where
  "round_half_away (Fin q) =
     (let n = (if q < 0 then - \<lfloor>- q + 1 / 2\<rfloor> else \<lfloor>q + 1 / 2\<rfloor>)
      in if n = 0 then (if q < 0 then NZero else Fin 0) else Fin (of_int n))"
| "round_half_away x = x"

definition round_half_away_tenth :: "jsnum \<Rightarrow> jsnum" where
  "round_half_away_tenth x = js_div (round_half_away (js_mul x (Fin 10))) (Fin 10)"

section \<open>Predicates and inputs of the statements\<close>

definition is_finite :: "jsnum \<Rightarrow> bool" where
  "is_finite x = (\<not> is_nan x \<and> \<not> is_inf x)"

definition nonneg_stats :: "NBAPlayerStats \<Rightarrow> bool" where
  \<comment> \<open>the thirteen fields that \<open>calculatePER\<close> reads are non-negative numbers\<close>
  "nonneg_stats p =
     list_all (\<lambda>x. js_ge x (Fin 0))
       [MIN' p, FGM p, FGA p, FTM p, FTA p, FG3M p, AST p, REB p, TOV p, STL p, BLK p,
        PF p, PTS p]"

definition mag :: "int \<Rightarrow> jsnum \<Rightarrow> bool" where
  \<comment> \<open>a finite number of magnitude at most \<open>2^k\<close>\<close>
  "mag k x = (is_finite x \<and> \<bar>fval x\<bar> \<le> pow2 k)"

definition away :: "int \<Rightarrow> jsnum \<Rightarrow> bool" where
  \<comment> \<open>a finite number of magnitude at least \<open>2^k\<close>\<close>
  "away k x = (is_finite x \<and> pow2 k \<le> \<bar>fval x\<bar>)"

definition between :: "int \<Rightarrow> int \<Rightarrow> jsnum \<Rightarrow> bool" where
  \<comment> \<open>a finite number from \<open>2^k\<close> to \<open>2^j\<close>\<close>
  "between k j x = (is_finite x \<and> pow2 k \<le> fval x \<and> fval x \<le> pow2 j)"

definition moderate_stats :: "NBAPlayerStats \<Rightarrow> bool" where
  \<comment> \<open>the thirteen fields that \<open>calculatePER\<close> reads are at most \<open>2^100\<close>; \<open>MIN\<close>, \<open>PF\<close> and
      the denominator of \<open>VOP\<close> are at least \<open>2^-100\<close> in magnitude\<close>
  "moderate_stats p =
     (list_all (mag 100)
        [MIN' p, FGM p, FGA p, FTM p, FTA p, FG3M p, AST p, REB p, TOV p, STL p, BLK p,
         PF p, PTS p]
      \<and> away (- 100) (MIN' p) \<and> away (- 100) (PF p) \<and> away (- 100) (VOP_denominator p))"

definition stats0 :: NBAPlayerStats where
  "stats0 =
     \<lparr>PLAYER_ID = Fin 0, PLAYER_NAME = [], TEAM_ID = Fin 0, TEAM_ABBREVIATION = [],
      AGE = Fin 0, GP = Fin 0, W = Fin 0, L = Fin 0, W_PCT = Fin 0, MIN' = Fin 0,
      FGM = Fin 0, FGA = Fin 0, FG_PCT = Fin 0, FG3M = Fin 0, FG3A = Fin 0,
      FG3_PCT = Fin 0, FTM = Fin 0, FTA = Fin 0, FT_PCT = Fin 0, OREB = Fin 0,
      DREB = Fin 0, REB = Fin 0, AST = Fin 0, TOV = Fin 0, STL = Fin 0, BLK = Fin 0,
      BLKA = Fin 0, PF = Fin 0, PFD = Fin 0, PTS = Fin 0, PLUS_MINUS = Fin 0,
      NBA_FANTASY_PTS = Fin 0, DD2 = Fin 0, TD3 = Fin 0, WNBA_FANTASY_PTS = Fin 0\<rparr>"

definition fixture_line :: NBAPlayerStats where
  \<comment> \<open>the end-to-end scenario of the specification\<close>
  "fixture_line =
     stats0\<lparr>GP := Fin 70, MIN' := lit (342 / 10), FGM := Fin 9, FGA := Fin 18, FTM := Fin 4,
       FTA := Fin 5, FG3M := Fin 2, AST := Fin 5, REB := Fin 7, TOV := Fin 3, STL := Fin 1,
       BLK := Fin 1, PF := Fin 2, PTS := Fin 24\<rparr>"

definition tiny_minutes_line :: NBAPlayerStats where
  \<comment> \<open>\<open>MIN = 5e-324\<close>, the smallest positive double: \<open>1 / MIN\<close> overflows\<close>
  "tiny_minutes_line = stats0\<lparr>MIN' := Fin (1 / 2 ^ 1074), FGA := Fin 1, PF := Fin 1\<rparr>"

definition overflow_up_line :: NBAPlayerStats where
  \<comment> \<open>\<open>MIN = 5e-324\<close> and a positive bracket: \<open>uPER * 15\<close> is \<open>+Infinity\<close>\<close>
  "overflow_up_line = tiny_minutes_line\<lparr>FG3M := Fin 1\<rparr>"

definition overflow_down_line :: NBAPlayerStats where
  \<comment> \<open>\<open>MIN = 5e-324\<close> and a negative bracket: \<open>uPER * 15\<close> is \<open>-Infinity\<close>\<close>
  "overflow_down_line = tiny_minutes_line\<lparr>TOV := Fin 1, PTS := Fin 1\<rparr>"

definition no_fouls_line :: NBAPlayerStats where
  "no_fouls_line = stats0\<lparr>GP := Fin 70, MIN' := Fin 30, FGA := Fin 18, PTS := Fin 24\<rparr>"

definition no_attempts_line :: NBAPlayerStats where
  \<comment> \<open>no shot, rebound or turnover: the denominator of \<open>VOP\<close> is zero\<close>
  "no_attempts_line = stats0\<lparr>GP := Fin 70, MIN' := Fin 10, PF := Fin 2, PTS := Fin 4\<rparr>"

definition team0 :: NBATeamStats where
  "team0 =
     \<lparr>NBATeamStats.TEAM_ID = Fin 0, NBATeamStats.TEAM_NAME = [],
      NBATeamStats.TEAM_ABBREVIATION = [], NBATeamStats.TEAM_CITY = [],
      NBATeamStats.GP = Fin 0, NBATeamStats.W = Fin 0, NBATeamStats.L = Fin 0,
      NBATeamStats.W_PCT = Fin 0, NBATeamStats.MIN' = Fin 0, NBATeamStats.FGM = Fin 0,
      NBATeamStats.FGA = Fin 0, NBATeamStats.FG_PCT = Fin 0, NBATeamStats.FG3M = Fin 0,
      NBATeamStats.FG3A = Fin 0, NBATeamStats.FG3_PCT = Fin 0, NBATeamStats.FTM = Fin 0,
      NBATeamStats.FTA = Fin 0, NBATeamStats.FT_PCT = Fin 0, NBATeamStats.OREB = Fin 0,
      NBATeamStats.DREB = Fin 0, NBATeamStats.REB = Fin 0, NBATeamStats.AST = Fin 0,
      NBATeamStats.TOV = Fin 0, NBATeamStats.STL = Fin 0, NBATeamStats.BLK = Fin 0,
      NBATeamStats.BLKA = Fin 0, NBATeamStats.PF = Fin 0, NBATeamStats.PFD = Fin 0,
      NBATeamStats.PTS = Fin 0, NBATeamStats.PLUS_MINUS = Fin 0\<rparr>"

definition env0 :: js_env where
  \<comment> \<open>a runtime in which \<open>Math.random()\<close> returns \<open>0\<close> every time\<close>
  "env0 = \<lparr>toString = (\<lambda>x. []), random = (\<lambda>k. Fin 0)\<rparr>"

definition env_half :: js_env where
  \<comment> \<open>a runtime in which \<open>Math.random()\<close> returns \<open>0.5\<close> every time\<close>
  "env_half = \<lparr>toString = (\<lambda>x. []), random = (\<lambda>k. Fin (1 / 2))\<rparr>"

definition loaded_service :: RealNBADataService where
  \<comment> \<open>both caches filled by fetches at time \<open>0\<close>\<close>
  "loaded_service =
     \<lparr>playerStatsCache = [fixture_line], teamStatsCache = [team0], lastFetchTime = 0\<rparr>"

definition teams_only_service :: RealNBADataService where
  "teams_only_service =
     \<lparr>playerStatsCache = [], teamStatsCache = [team0], lastFetchTime = 0\<rparr>"

definition players_only_service :: RealNBADataService where
  "players_only_service =
     \<lparr>playerStatsCache = [fixture_line], teamStatsCache = [], lastFetchTime = 0\<rparr>"

definition bench_line :: NBAPlayerStats where
  \<comment> \<open>five games played\<close>
  "bench_line = stats0\<lparr>PLAYER_NAME := ''Bench'', GP := Fin 5\<rparr>"

definition rookie_a :: NBAPlayerStats where
  \<comment> \<open>no minutes: \<open>calculatePER\<close> returns \<open>0\<close>\<close>
  "rookie_a = stats0\<lparr>PLAYER_NAME := ''A'', GP := Fin 20\<rparr>"

definition rookie_b :: NBAPlayerStats where
  "rookie_b = stats0\<lparr>PLAYER_NAME := ''B'', GP := Fin 30\<rparr>"

definition nonneg_per_game :: "NBAPlayerStats \<Rightarrow> bool" where
  \<comment> \<open>the thirteen per-game statistics that \<open>convertToPlayerFormat\<close> rounds are
      non-negative numbers\<close>
  "nonneg_per_game p =
     list_all (\<lambda>x. js_ge x (Fin 0))
       [MIN' p, PTS p, REB p, AST p, STL p, BLK p, TOV p, FGM p, FGA p, FG3M p, FG3A p,
        FTM p, FTA p]"

definition rounding_line :: NBAPlayerStats where
  \<comment> \<open>the two raw values of the rounding examples of the specification\<close>
  "rounding_line =
     stats0\<lparr>GP := Fin 70, MIN' := lit (2734999 / 100000), PTS := lit (2735 / 100)\<rparr>"

definition three_lines :: "NBAPlayerStats list" where
  "three_lines = [rookie_a, fixture_line, rookie_b]"

section \<open>Evaluating the arithmetic on numerals\<close>

lemma bitlen_num [simp]:
  "bitlen 0 = 0" "bitlen 1 = 1"
  "bitlen (numeral (Num.Bit0 n)) = 1 + bitlen (numeral n)"
  "bitlen (numeral (Num.Bit1 n)) = 1 + bitlen (numeral n)"
  by (subst bitlen.simps, simp)+

lemma floor_rat_num [simp]:
  "\<lfloor>numeral a / numeral b :: rat\<rfloor> = numeral a div numeral b"
  "\<lfloor>1 / numeral b :: rat\<rfloor> = 1 div numeral b"
  "\<lfloor>- (numeral a / numeral b) :: rat\<rfloor> = - numeral a div numeral b"
  using floor_divide_of_int_eq[of "numeral a" "numeral b", where ?'a = rat]
        floor_divide_of_int_eq[of 1 "numeral b", where ?'a = rat]
        floor_divide_of_int_eq[of "- numeral a" "numeral b", where ?'a = rat]
  by simp_all

lemmas js_eval = rnd_def pack_def round_to_def ulp_def ilog2_def pow2_def round_even_def
  js_mul_def js_div_def js_add_def js_sub_def lit_def js_lt_def js_gt_def js_eq_def
  js_le_def js_ge_def Math_max_def Math_min_def signed_inf_def signed_zero_def

lemmas per_defs = calculatePER_def scaled_uPER_def per_uPER_def per_factor_def
  per_VOP_def VOP_denominator_def DRB_PCT_def Let_def

section \<open>NaN, the infinities and the zeros in the arithmetic\<close>

lemma js_add_NaN [simp]: "js_add NaN y = NaN" "js_add x NaN = NaN"
  by (simp_all add: js_add_def)

lemma js_sub_NaN [simp]: "js_sub NaN y = NaN" "js_sub x NaN = NaN"
  by (simp_all add: js_sub_def)

lemma js_mul_NaN [simp]: "js_mul NaN y = NaN" "js_mul x NaN = NaN"
  by (simp_all add: js_mul_def)

lemma js_div_NaN [simp]: "js_div NaN y = NaN" "js_div x NaN = NaN"
  by (simp_all add: js_div_def)

lemma Math_min_NaN [simp]: "Math_min NaN y = NaN" "Math_min x NaN = NaN"
  by (simp_all add: Math_min_def)

lemma Math_max_NaN [simp]: "Math_max NaN y = NaN" "Math_max x NaN = NaN"
  by (simp_all add: Math_max_def)

lemma is_finite_iff: "is_finite x \<longleftrightarrow> x = NZero \<or> (\<exists>q. x = Fin q)"
  by (cases x) (simp_all add: is_finite_def)

lemma js_neg_finite [simp]: "is_finite (js_neg x) = is_finite x"
  by (cases x) (simp_all add: is_finite_def)

lemma js_add_nonfinite:
  "\<not> is_finite x \<or> \<not> is_finite y \<Longrightarrow> \<not> is_finite (js_add x y)"
  by (cases x; cases y) (simp_all add: is_finite_def js_add_def)

lemma js_sub_nonfinite:
  "\<not> is_finite x \<or> \<not> is_finite y \<Longrightarrow> \<not> is_finite (js_sub x y)"
  unfolding js_sub_def by (rule js_add_nonfinite) simp

lemma js_mul_nonfinite:
  "\<not> is_finite x \<or> \<not> is_finite y \<Longrightarrow> \<not> is_finite (js_mul x y)"
  by (cases x; cases y) (simp_all add: is_finite_def js_mul_def signed_inf_def)

lemma js_div_by_zero: "is_zero y \<Longrightarrow> \<not> is_finite (js_div x y)"
  by (cases x; cases y) (simp_all add: is_finite_def js_div_def signed_inf_def)

lemma js_mul_zero_nonfinite:
  "is_zero z \<Longrightarrow> \<not> is_finite v \<Longrightarrow> js_mul z v = NaN \<and> js_mul v z = NaN"
  by (cases z; cases v) (simp_all add: is_finite_def js_mul_def)

lemma rnd_0 [simp]: "rnd 0 = Fin 0"
  by (simp add: rnd_def)

lemma js_sub_self: "js_sub r r = NaN \<or> js_sub r r = Fin 0"
  by (cases r) (simp_all add: js_sub_def js_add_def)

lemma js_mul_nonfinite_sub_self:
  assumes "\<not> is_finite v"
  shows "js_mul v (js_sub r r) = NaN"
proof -
  consider "js_sub r r = NaN" | "js_sub r r = Fin 0"
    using js_sub_self by blast
  then show ?thesis
  proof cases
    case 1
    then show ?thesis by simp
  next
    case 2
    then show ?thesis using js_mul_zero_nonfinite[of "Fin 0" v] assms by simp
  qed
qed

lemma js_eq_zero: "js_eq d (Fin 0) \<Longrightarrow> is_zero d"
  by (cases d) (simp_all add: js_eq_def)

lemma clamp_NaN: "is_nan v \<Longrightarrow> Math_max (Fin 0) (Math_min (Fin 40) v) = NaN"
  by (cases v) simp_all

lemma clamp_range:
  "\<not> is_nan v \<Longrightarrow> \<exists>q. Math_max (Fin 0) (Math_min (Fin 40) v) = Fin q \<and> 0 \<le> q \<and> q \<le> 40"
  by (cases v) (auto simp add: Math_max_def Math_min_def js_lt_def)

lemma clamp_PInf: "Math_max (Fin 0) (Math_min (Fin 40) PInf) = Fin 40"
  by (simp add: Math_max_def Math_min_def js_lt_def)

lemma clamp_NInf: "Math_max (Fin 0) (Math_min (Fin 40) NInf) = Fin 0"
  by (simp add: Math_max_def Math_min_def js_lt_def)

section \<open>\<open>calculatePER\<close>\<close>

text \<open>
  C1.  \<open>calculatePER\<close> computes the reference algorithm of section 4.1 of the
  specification, operation for operation on doubles, for every statistics record (the
  non-negative ones among them): the guard on \<open>MIN\<close>, \<open>factor\<close>, the unguarded \<open>VOP\<close>,
  \<open>DRB_PCT = 0.2\<close>, the weighted sum with its \<open>REB - REB\<close> term and its divisions by \<open>PF\<close>,
  the scaling by 15 and the clamp to \<open>[0, 40]\<close>.
\<close>

theorem calculatePER_refines_spec: "calculatePER p = PERCalculator_spec p"
  by (simp add: calculatePER_def PERCalculator_spec_def scaled_uPER_def per_uPER_def
      per_factor_def per_VOP_def VOP_denominator_def DRB_PCT_def Let_def)


lemma js_gt_zero_not_eq: "js_gt x (Fin 0) \<Longrightarrow> \<not> js_eq x (Fin 0)"
  by (cases x) (simp_all add: js_gt_def js_lt_def js_eq_def)

lemma per_uPER_zero_VOP_denominator:
  assumes "is_zero (VOP_denominator p)"
  shows "per_uPER p = NaN"
proof -
  have "\<not> is_finite (per_VOP p)"
    unfolding per_VOP_def using assms by (rule js_div_by_zero)
  then have "\<not> is_finite (js_mul (per_VOP p) (js_sub (Fin 1) DRB_PCT))"
    by (simp add: js_mul_nonfinite)
  then have "js_mul (js_mul (per_VOP p) (js_sub (Fin 1) DRB_PCT)) (js_sub (REB p) (REB p)) = NaN"
    by (rule js_mul_nonfinite_sub_self)
  then show ?thesis
    by (simp add: per_uPER_def Let_def)
qed

lemma per_uPER_zero_PF:
  assumes "is_zero (PF p)"
  shows "per_uPER p = NaN"
proof -
  have "\<not> is_finite (js_div (FTM p) (PF p))"
    using assms by (rule js_div_by_zero)
  then have "\<not> is_finite (js_sub (js_div (FTM p) (PF p))
        (js_mul (js_mul (lit (44 / 100)) (js_div (FTA p) (PF p))) (per_VOP p)))"
    by (simp add: js_sub_nonfinite)
  with assms have "js_mul (PF p) (js_sub (js_div (FTM p) (PF p))
        (js_mul (js_mul (lit (44 / 100)) (js_div (FTA p) (PF p))) (per_VOP p))) = NaN"
    using js_mul_zero_nonfinite by blast
  then show ?thesis
    by (simp add: per_uPER_def Let_def)
qed

lemma calculatePER_clamp:
  "\<not> js_eq (MIN' p) (Fin 0) \<Longrightarrow>
     calculatePER p = Math_max (Fin 0) (Math_min (Fin 40) (scaled_uPER p))"
  by (simp add: calculatePER_def)

lemma per_VOP_fixture:
  "per_VOP fixture_line = Fin (6671999447956291 / 4503599627370496)"
  apply (simp add: per_VOP_def VOP_denominator_def fixture_line_def stats0_def)
  apply (simp add: js_eval)
  done

lemma per_factor_fixture:
  "per_factor fixture_line = Fin (5448784115015335 / 9007199254740992)"
  apply (simp add: per_factor_def fixture_line_def stats0_def)
  apply (simp add: js_eval)
  done

lemma scaled_uPER_fixture:
  "scaled_uPER fixture_line = Fin (4834168564998993 / 562949953421312)"
  apply (simp add: scaled_uPER_def per_uPER_def Let_def per_VOP_fixture per_factor_fixture DRB_PCT_def)
  apply (simp add: fixture_line_def stats0_def)
  apply (simp add: js_eval)
  done

lemma MIN_fixture: "js_gt (MIN' fixture_line) (Fin 0)"
  apply (simp add: fixture_line_def stats0_def)
  apply (simp add: js_eval)
  done

lemma scaled_uPER_tiny: "scaled_uPER tiny_minutes_line = NaN"
  apply (simp add: per_defs tiny_minutes_line_def stats0_def)
  apply (simp add: js_eval)
  done

lemma scaled_uPER_up: "scaled_uPER overflow_up_line = PInf"
  apply (simp add: per_defs overflow_up_line_def tiny_minutes_line_def stats0_def)
  apply (simp add: js_eval)
  done

lemma scaled_uPER_down: "scaled_uPER overflow_down_line = NInf"
  apply (simp add: per_defs overflow_down_line_def tiny_minutes_line_def stats0_def)
  apply (simp add: js_eval)
  done

lemma tiny_hyps:
  "nonneg_stats tiny_minutes_line" "js_gt (MIN' tiny_minutes_line) (Fin 0)"
  "\<not> js_eq (VOP_denominator tiny_minutes_line) (Fin 0)"
  "\<not> js_eq (PF tiny_minutes_line) (Fin 0)"
  by (simp_all add: nonneg_stats_def VOP_denominator_def tiny_minutes_line_def stats0_def js_eval)

lemma MIN_overflow_lines:
  "js_gt (MIN' overflow_up_line) (Fin 0)" "js_gt (MIN' overflow_down_line) (Fin 0)"
  by (simp_all add: overflow_up_line_def overflow_down_line_def tiny_minutes_line_def
      stats0_def js_gt_def js_lt_def)


text \<open>
  C2, as the specification states it, fails: non-negative fields, \<open>MIN > 0\<close> and non-zero
  denominators do not make the result finite.  With \<open>MIN = 5e-324\<close>, \<open>FGA = 1\<close>, \<open>PF = 1\<close>
  and every other field zero, \<open>1 / MIN\<close> overflows to \<open>+Infinity\<close>, the bracket is \<open>0\<close>,
  their product is NaN, and the clamp returns NaN.
\<close>

theorem calculatePER_range_counterexample:
  "nonneg_stats tiny_minutes_line \<and> js_gt (MIN' tiny_minutes_line) (Fin 0)
   \<and> \<not> js_eq (VOP_denominator tiny_minutes_line) (Fin 0)
   \<and> \<not> js_eq (PF tiny_minutes_line) (Fin 0)
   \<and> calculatePER tiny_minutes_line = NaN"
  using tiny_hyps calculatePER_clamp[OF js_gt_zero_not_eq[OF tiny_hyps(2)]]
  by (simp add: scaled_uPER_tiny)

text \<open>
  C7.  For every statistics record with \<open>MIN > 0\<close> whose computation hits an unguarded
  zero denominator (\<open>FGA - REB + TOV + 0.44 * FTA == 0\<close>, or \<open>PF == 0\<close>), \<open>calculatePER\<close>
  (a total function: nothing is raised) returns a value that is not finite.  The term
  \<open>VOP * (1 - DRB_PCT) * (REB - REB)\<close>, respectively \<open>PF * (...)\<close>, is NaN, and NaN passes
  through the sum, the scaling and the clamp: the value returned is NaN.
\<close>

theorem calculatePER_degenerate:
  assumes "js_gt (MIN' p) (Fin 0)"
    and "js_eq (VOP_denominator p) (Fin 0) \<or> js_eq (PF p) (Fin 0)"
  shows "\<not> is_finite (calculatePER p) \<and> calculatePER p = NaN"
proof -
  have "per_uPER p = NaN"
    using assms(2) per_uPER_zero_VOP_denominator per_uPER_zero_PF js_eq_zero by blast
  then have "scaled_uPER p = NaN"
    by (simp add: scaled_uPER_def)
  then have "calculatePER p = NaN"
    using calculatePER_clamp[OF js_gt_zero_not_eq[OF assms(1)]] by simp
  then show ?thesis
    by (simp add: is_finite_def)
qed

theorem calculatePER_degenerate_witness:
  "js_gt (MIN' no_fouls_line) (Fin 0) \<and> js_eq (PF no_fouls_line) (Fin 0)
   \<and> calculatePER no_fouls_line = NaN
   \<and> js_gt (MIN' no_attempts_line) (Fin 0) \<and> js_eq (VOP_denominator no_attempts_line) (Fin 0)
   \<and> calculatePER no_attempts_line = NaN"
proof -
  have a: "js_gt (MIN' no_fouls_line) (Fin 0)" "js_eq (PF no_fouls_line) (Fin 0)"
    by (simp_all add: no_fouls_line_def stats0_def js_gt_def js_lt_def js_eq_def)
  have b: "js_gt (MIN' no_attempts_line) (Fin 0)"
    "js_eq (VOP_denominator no_attempts_line) (Fin 0)"
    by (simp_all add: no_attempts_line_def stats0_def VOP_denominator_def js_eval)
  show ?thesis
    using a b calculatePER_degenerate[of no_fouls_line]
      calculatePER_degenerate[of no_attempts_line]
    by blast
qed

text \<open>
  C10.  For every statistics record with \<open>MIN > 0\<close>, the clamp maps an intermediate
  \<open>uPER * 15\<close> of \<open>+Infinity\<close> to exactly 40 and one of \<open>-Infinity\<close> to exactly 0; the
  result of \<open>calculatePER\<close> is never an infinity, and when it is not finite it is NaN,
  which happens exactly when the intermediate is NaN.
\<close>

theorem calculatePER_infinities_clamped:
  assumes "js_gt (MIN' p) (Fin 0)"
  shows "(scaled_uPER p = PInf \<longrightarrow> calculatePER p = Fin 40)
       \<and> (scaled_uPER p = NInf \<longrightarrow> calculatePER p = Fin 0)
       \<and> \<not> is_inf (calculatePER p)
       \<and> (\<not> is_finite (calculatePER p) \<longleftrightarrow> is_nan (scaled_uPER p))
       \<and> (\<not> is_finite (calculatePER p) \<longrightarrow> calculatePER p = NaN)"
proof -
  note c = calculatePER_clamp[OF js_gt_zero_not_eq[OF assms]]
  show ?thesis
  proof (cases "is_nan (scaled_uPER p)")
    case True
    then have "calculatePER p = NaN"
      using c clamp_NaN by simp
    with True show ?thesis
      by (cases "scaled_uPER p") (simp_all add: is_finite_def)
  next
    case False
    from clamp_range[OF False] c obtain q where q: "calculatePER p = Fin q"
      by auto
    have up: "scaled_uPER p = PInf \<longrightarrow> calculatePER p = Fin 40"
      using c by (simp add: clamp_PInf)
    have down: "scaled_uPER p = NInf \<longrightarrow> calculatePER p = Fin 0"
      using c by (simp add: clamp_NInf)
    from False up down show ?thesis
      by (simp add: q is_finite_def)
  qed
qed

theorem calculatePER_infinities_clamped_witness:
  "js_gt (MIN' overflow_up_line) (Fin 0) \<and> scaled_uPER overflow_up_line = PInf
   \<and> calculatePER overflow_up_line = Fin 40
   \<and> js_gt (MIN' overflow_down_line) (Fin 0) \<and> scaled_uPER overflow_down_line = NInf
   \<and> calculatePER overflow_down_line = Fin 0
   \<and> js_gt (MIN' tiny_minutes_line) (Fin 0) \<and> \<not> is_finite (calculatePER tiny_minutes_line)
   \<and> calculatePER tiny_minutes_line = NaN"
  using MIN_overflow_lines tiny_hyps(2) scaled_uPER_up scaled_uPER_down scaled_uPER_tiny
    calculatePER_infinities_clamped[OF MIN_overflow_lines(1)]
    calculatePER_infinities_clamped[OF MIN_overflow_lines(2)]
    calculatePER_infinities_clamped[OF tiny_hyps(2)]
  by simp


section \<open>The cache of the data service\<close>

lemma getPlayerStats_never_fails: "\<exists>rows. getPlayerStats response = Inr rows"
  by (simp add: getPlayerStats_def makeRequest_def split: sum.splits option.splits)

lemma getTeamStats_never_fails: "\<exists>rows. getTeamStats response = Inr rows"
  by (simp add: getTeamStats_def makeRequest_def split: sum.splits option.splits)

lemma getPlayerStats_failed [simp]: "getPlayerStats (Inl e) = Inr []"
  by (simp add: getPlayerStats_def makeRequest_def)

lemma getTeamStats_failed [simp]: "getTeamStats (Inl e) = Inr []"
  by (simp add: getTeamStats_def makeRequest_def)

lemma getPlayerStats_rows [simp]: "getPlayerStats (Inr (Some rows)) = Inr rows"
  by (simp add: getPlayerStats_def makeRequest_def)

lemma getTeamStats_rows [simp]: "getTeamStats (Inr (Some rows)) = Inr rows"
  by (simp add: getTeamStats_def makeRequest_def)

lemma fetchPlayerData_requests:
  "requests (fetchPlayerData env now now' response this) =
     (if length (playerStatsCache this) > 0 \<and> now - lastFetchTime this < CACHE_DURATION
      then [] else [''leaguedashplayerstats''])"
  by (simp add: fetchPlayerData_def split: sum.splits)

lemma fetchTeamData_requests:
  "requests (fetchTeamData env now now' response this) =
     (if length (teamStatsCache this) > 0 \<and> now - lastFetchTime this < CACHE_DURATION
      then [] else [''leaguedashteamstats''])"
  by (simp add: fetchTeamData_def split: sum.splits)

lemma position_convert_player [simp]:
  "position (convert_player env i p) = getPlayerPosition (random env (2 * i + 1)) (PLAYER_NAME p)"
  by (simp add: convert_player_def Let_def)

lemma Array_sort_single [simp]: "Array_sort compare [x] = [x]"
  by (simp add: Array_sort_def)

lemma convertToPlayerFormat_Nil [simp]: "convertToPlayerFormat env [] = []"
  by (simp add: convertToPlayerFormat_def converted_rows_def Array_sort_def)

lemma convertToTeamFormat_Nil [simp]: "convertToTeamFormat env [] = []"
  by (simp add: convertToTeamFormat_def Array_sort_def)

lemma GP_fixture: "js_gt (GP fixture_line) (Fin 10)"
  by (simp add: fixture_line_def stats0_def js_gt_def js_lt_def)

lemma convert_fixture_single:
  "convertToPlayerFormat env [fixture_line] = [convert_player env 0 fixture_line]"
  by (simp add: convertToPlayerFormat_def converted_rows_def GP_fixture enumerate_eq_zip)

lemma getPlayerPosition_0: "getPlayerPosition (Fin 0) n = Some ''PG''"
  by (simp add: getPlayerPosition_def js_mul_def signed_zero_def)

lemma getPlayerPosition_half: "getPlayerPosition (Fin (1 / 2)) n = Some ''SF''"
  by (simp add: getPlayerPosition_def js_eval)

text \<open>
  What a failed request does, for every state of the service: \<open>getPlayerStats\<close>
  (\<open>getTeamStats\<close>) turns the failure into an empty array, which the call stores with the
  current time and converts.  The \<open>catch\<close> block of \<open>fetchPlayerData\<close>, which would leave
  the service as it was, is never entered.
\<close>

lemma fetch_failure_effect:
  assumes "response = Inl e \<or> response = Inr None"
    and "response' = Inl e' \<or> response' = Inr None"
  shows
  "(\<not> (length (playerStatsCache this) > 0 \<and> now - lastFetchTime this < CACHE_DURATION) \<longrightarrow>
      fetchPlayerData env now now' response this =
        \<lparr>returned = Inr [],
         service = this\<lparr>playerStatsCache := [], lastFetchTime := now'\<rparr>,
         requests = [''leaguedashplayerstats'']\<rparr>)
   \<and> (\<not> (length (teamStatsCache this) > 0 \<and> now - lastFetchTime this < CACHE_DURATION) \<longrightarrow>
      fetchTeamData env now now' response' this =
        \<lparr>returned = Inr [],
         service = this\<lparr>teamStatsCache := [], lastFetchTime := now'\<rparr>,
         requests = [''leaguedashteamstats'']\<rparr>)"
proof -
  have "getPlayerStats response = Inr []" and "getTeamStats response' = Inr []"
    using assms by (auto simp add: getPlayerStats_def getTeamStats_def makeRequest_def)
  then show ?thesis
    by (simp add: fetchPlayerData_def fetchTeamData_def)
qed

lemma fetchPlayerData_never_rejects:
  "\<exists>players. returned (fetchPlayerData env now now' response this) = Inr players"
  by (simp add: fetchPlayerData_def split: sum.splits)

lemma fetchTeamData_never_rejects:
  "\<exists>teams. returned (fetchTeamData env now now' response this) = Inr teams"
  by (simp add: fetchTeamData_def split: sum.splits)

text \<open>
  C3.  When the raw-stats fetch behind \<open>fetchPlayerData\<close> fails, the failure is to reach
  the caller and \<open>playerStatsCache\<close> and \<open>lastFetchTime\<close> are to stay as they were.  The
  code does otherwise.  A request rejected at time \<open>1000\<close> on the new service resolves
  with the empty list and sets \<open>lastFetchTime\<close> to \<open>1200\<close>; a request rejected at time
  \<open>400000\<close> on a service that holds one cached row from time \<open>0\<close> resolves with the empty
  list, replaces the cached row by the empty array and sets \<open>lastFetchTime\<close> to \<open>400200\<close>.
\<close>

theorem fetch_failure_overwrites_cache:
  "fetchPlayerData env0 1000 1200 (Inl (Error ''Network Error'')) new_RealNBADataService =
     \<lparr>returned = Inr [],
      service = \<lparr>playerStatsCache = [], teamStatsCache = [], lastFetchTime = 1200\<rparr>,
      requests = [''leaguedashplayerstats'']\<rparr>
   \<and> lastFetchTime new_RealNBADataService = 0
   \<and> playerStatsCache loaded_service = [fixture_line]
   \<and> lastFetchTime loaded_service = 0
   \<and> fetchPlayerData env0 400000 400200 (Inl (Error ''Network Error'')) loaded_service =
     \<lparr>returned = Inr [],
      service = \<lparr>playerStatsCache = [], teamStatsCache = [team0], lastFetchTime = 400200\<rparr>,
      requests = [''leaguedashplayerstats'']\<rparr>"
  by (simp add: fetchPlayerData_def new_RealNBADataService_def loaded_service_def
      CACHE_DURATION_def)

text \<open>
  C4, as the specification states it, fails: a call answered from the cache does not
  return a stored sequence.  It converts the cached rows again, and the conversion draws
  \<open>Math.random()\<close>: two calls on the same cache, neither of which requests anything,
  return different lists.
\<close>

theorem cache_hit_counterexample:
  "requests (fetchPlayerData env0 100000 100000 (Inr (Some [])) loaded_service) = []
   \<and> requests (fetchPlayerData env_half 100000 100000 (Inr (Some [])) loaded_service) = []
   \<and> returned (fetchPlayerData env0 100000 100000 (Inr (Some [])) loaded_service)
     \<noteq> returned (fetchPlayerData env_half 100000 100000 (Inr (Some [])) loaded_service)"
proof -
  have "position (convert_player env0 0 fixture_line)
      \<noteq> position (convert_player env_half 0 fixture_line)"
    by (simp add: env0_def env_half_def getPlayerPosition_0 getPlayerPosition_half)
  then have "convert_player env0 0 fixture_line \<noteq> convert_player env_half 0 fixture_line"
    by metis
  then show ?thesis
    by (simp add: fetchPlayerData_def loaded_service_def CACHE_DURATION_def
        convert_fixture_single)
qed

text \<open>
  C4, amended.  A call of \<open>fetchPlayerData\<close> (respectively \<open>fetchTeamData\<close>) made while the
  cached array of that kind is non-empty and \<open>now - lastFetchTime < CACHE_DURATION\<close>
  (300000 ms) requests nothing, leaves the service as it is and returns a fresh
  conversion of the cached rows; a call made when \<open>now - lastFetchTime >= CACHE_DURATION\<close>
  requests again.
\<close>

theorem cache_hit_and_expiry:
  "CACHE_DURATION = 300000
   \<and> (length (playerStatsCache this) > 0 \<and> now - lastFetchTime this < CACHE_DURATION \<longrightarrow>
        fetchPlayerData env now now' response this =
          \<lparr>returned = Inr (convertToPlayerFormat env (playerStatsCache this)),
           service = this, requests = []\<rparr>)
   \<and> (length (teamStatsCache this) > 0 \<and> now - lastFetchTime this < CACHE_DURATION \<longrightarrow>
        fetchTeamData env now now' response' this =
          \<lparr>returned = Inr (convertToTeamFormat env (teamStatsCache this)),
           service = this, requests = []\<rparr>)
   \<and> (now - lastFetchTime this \<ge> CACHE_DURATION \<longrightarrow>
        requests (fetchPlayerData env now now' response this) = [''leaguedashplayerstats'']
        \<and> requests (fetchTeamData env now now' response' this) = [''leaguedashteamstats''])"
  by (simp add: fetchPlayerData_requests fetchTeamData_requests)
     (simp add: fetchPlayerData_def fetchTeamData_def CACHE_DURATION_def)

theorem cache_hit_and_expiry_witness:
  "requests (fetchPlayerData env0 100000 100000 (Inr (Some [])) loaded_service) = []
   \<and> service (fetchPlayerData env0 100000 100000 (Inr (Some [])) loaded_service) = loaded_service
   \<and> requests (fetchTeamData env0 100000 100000 (Inr (Some [])) loaded_service) = []
   \<and> requests (fetchPlayerData env0 301000 301000 (Inr (Some [])) loaded_service)
       = [''leaguedashplayerstats'']
   \<and> requests (fetchTeamData env0 301000 301000 (Inr (Some [])) loaded_service)
       = [''leaguedashteamstats'']"
proof -
  have fresh: "length (playerStatsCache loaded_service) > 0
      \<and> 100000 - lastFetchTime loaded_service < CACHE_DURATION"
    "length (teamStatsCache loaded_service) > 0
      \<and> 100000 - lastFetchTime loaded_service < CACHE_DURATION"
    and old: "301000 - lastFetchTime loaded_service \<ge> CACHE_DURATION"
    by (simp_all add: loaded_service_def CACHE_DURATION_def)
  show ?thesis
    using fresh old
      cache_hit_and_expiry[of loaded_service 100000 env0 100000 "Inr (Some [])" "Inr (Some [])"]
      cache_hit_and_expiry[of loaded_service 301000 env0 301000 "Inr (Some [])" "Inr (Some [])"]
    by simp
qed

text \<open>
  C9.  The service has one \<open>lastFetchTime\<close> for both kinds of data.  A fetch of players
  writes the timestamp that the freshness test of \<open>fetchTeamData\<close> reads, and a fetch of
  teams the one that \<open>fetchPlayerData\<close> reads: after a players fetch at \<open>now'\<close>, a teams
  call within \<open>CACHE_DURATION\<close> of \<open>now'\<close> is answered from the teams cache however old
  that is, and the other way round.
\<close>

theorem lastFetchTime_shared:
  "(\<not> (length (playerStatsCache this) > 0 \<and> now - lastFetchTime this < CACHE_DURATION)
      \<and> length (teamStatsCache this) > 0 \<and> t - now' < CACHE_DURATION \<longrightarrow>
        lastFetchTime (service (fetchPlayerData env now now' (Inr (Some rows)) this)) = now'
      \<and> requests (fetchTeamData env2 t t' r
           (service (fetchPlayerData env now now' (Inr (Some rows)) this))) = [])
   \<and> (\<not> (length (teamStatsCache this) > 0 \<and> now - lastFetchTime this < CACHE_DURATION)
      \<and> length (playerStatsCache this) > 0 \<and> t - now' < CACHE_DURATION \<longrightarrow>
        lastFetchTime (service (fetchTeamData env now now' (Inr (Some rows')) this)) = now'
      \<and> requests (fetchPlayerData env2 t t' r'
           (service (fetchTeamData env now now' (Inr (Some rows')) this))) = [])"
  by (simp add: fetchPlayerData_requests fetchTeamData_requests)
     (simp add: fetchPlayerData_def fetchTeamData_def)

theorem lastFetchTime_shared_witness:
  "requests (fetchTeamData env0 400300 400300 (Inr (Some [])) teams_only_service)
     = [''leaguedashteamstats'']
   \<and> requests (fetchTeamData env0 400300 400300 (Inr (Some []))
        (service (fetchPlayerData env0 400000 400200 (Inr (Some [fixture_line]))
           teams_only_service))) = []
   \<and> requests (fetchPlayerData env0 400300 400300 (Inr (Some [])) players_only_service)
     = [''leaguedashplayerstats'']
   \<and> requests (fetchPlayerData env0 400300 400300 (Inr (Some []))
        (service (fetchTeamData env0 400000 400200 (Inr (Some [team0]))
           players_only_service))) = []"
proof -
  have a: "\<not> (length (playerStatsCache teams_only_service) > 0
          \<and> 400000 - lastFetchTime teams_only_service < CACHE_DURATION)
      \<and> length (teamStatsCache teams_only_service) > 0 \<and> 400300 - 400200 < CACHE_DURATION"
    and b: "\<not> (length (teamStatsCache players_only_service) > 0
          \<and> 400000 - lastFetchTime players_only_service < CACHE_DURATION)
      \<and> length (playerStatsCache players_only_service) > 0 \<and> 400300 - 400200 < CACHE_DURATION"
    by (simp_all add: teams_only_service_def players_only_service_def CACHE_DURATION_def)
  have c: "requests (fetchTeamData env0 400300 400300 (Inr (Some [])) teams_only_service)
      = [''leaguedashteamstats'']"
    "requests (fetchPlayerData env0 400300 400300 (Inr (Some [])) players_only_service)
      = [''leaguedashplayerstats'']"
    by (simp_all add: fetchPlayerData_requests fetchTeamData_requests teams_only_service_def
        players_only_service_def CACHE_DURATION_def)
  show ?thesis
    using a b c
      lastFetchTime_shared[of teams_only_service 400000 400300 400200 env0 "[fixture_line]"
        env0 400300 "Inr (Some [])" "[team0]" "Inr (Some [])"]
      lastFetchTime_shared[of players_only_service 400000 400300 400200 env0 "[fixture_line]"
        env0 400300 "Inr (Some [])" "[team0]" "Inr (Some [])"]
    by blast
qed


section \<open>Rounding: signs and the grid of the doubles\<close>

lemma pow2_pos [simp]: "0 < pow2 k"
  by (simp add: pow2_def)

lemma pow2_mono: "j \<le> k \<Longrightarrow> pow2 j \<le> pow2 k"
proof -
  assume jk: "j \<le> k"
  have "pow2 i = 2 powi i" for i
    by (simp add: pow2_def power_int_def field_simps)
  then show ?thesis
    using jk by (simp add: power_int_increasing)
qed

lemma pow2_grid:
  assumes "- 1074 \<le> k"
  shows "\<exists>m::int. pow2 k = of_int m / 2 ^ 1074"
proof (cases "0 \<le> k")
  case True
  have "pow2 k = of_int (2 ^ nat k * 2 ^ 1074) / 2 ^ 1074"
    using True by (simp add: pow2_def)
  then show ?thesis by blast
next
  case False
  then have "nat (- k) + nat (k + 1074) = 1074"
    using assms by simp
  then have "(2::rat) ^ 1074 = 2 ^ nat (- k) * 2 ^ nat (k + 1074)"
    by (simp add: power_add [symmetric])
  then have "pow2 k = of_int (2 ^ nat (k + 1074)) / 2 ^ 1074"
    using False by (simp add: pow2_def field_simps)
  then show ?thesis by blast
qed

lemma round_even_nonneg: "0 \<le> r \<Longrightarrow> 0 \<le> round_even r"
  by (simp add: round_even_def)

lemma round_even_ge1: "1 \<le> r \<Longrightarrow> 1 \<le> round_even r"
proof -
  assume "1 \<le> r"
  then have "1 \<le> \<lfloor>r\<rfloor>" by linarith
  then show ?thesis by (simp add: round_even_def)
qed

lemma bitlen_bounds:
  "1 \<le> n \<Longrightarrow> 1 \<le> bitlen n \<and> 2 ^ nat (bitlen n - 1) \<le> n \<and> n < 2 ^ nat (bitlen n)"
proof (induction n rule: bitlen.induct)
  case (1 n)
  show ?case
  proof (cases "n = 1")
    case True
    have "bitlen 1 = 1" by (subst bitlen.simps) (simp add: bitlen.simps)
    with True show ?thesis by simp
  next
    case False
    with "1.prems" have h: "1 \<le> n div 2" by simp
    from "1.prems" have nle: "\<not> n \<le> 0" by simp
    from "1.IH"[OF nle h] obtain
      b1: "1 \<le> bitlen (n div 2)" and
      lo: "2 ^ nat (bitlen (n div 2) - 1) \<le> n div 2" and
      hi: "n div 2 < 2 ^ nat (bitlen (n div 2))"
      by blast
    have bn: "bitlen n = 1 + bitlen (n div 2)"
      using nle by (subst bitlen.simps) simp
    have e1: "nat (bitlen n - 1) = Suc (nat (bitlen (n div 2) - 1))"
      using b1 bn by simp
    have e2: "nat (bitlen n) = Suc (nat (bitlen (n div 2)))"
      using b1 bn by simp
    have "(2::int) ^ nat (bitlen n - 1) = 2 * 2 ^ nat (bitlen (n div 2) - 1)"
      by (simp only: e1 power_Suc)
    moreover have "2 * 2 ^ nat (bitlen (n div 2) - 1) \<le> n"
      using lo by linarith
    ultimately have lo': "2 ^ nat (bitlen n - 1) \<le> n"
      by simp
    have "(2::int) ^ nat (bitlen n) = 2 * 2 ^ nat (bitlen (n div 2))"
      by (simp only: e2 power_Suc)
    moreover have "n < 2 * 2 ^ nat (bitlen (n div 2))"
      using hi by linarith
    ultimately have hi': "n < 2 ^ nat (bitlen n)"
      by simp
    have "1 \<le> bitlen n"
      using b1 bn by simp
    with lo' hi' show ?thesis
      by blast
  qed
qed

lemma pow2_nat: "0 \<le> k \<Longrightarrow> pow2 k = of_int (2 ^ nat k)"
  by (simp add: pow2_def)

lemma pow2_neg: "pow2 (- k) = 1 / pow2 k"
  by (simp add: pow2_def)

lemma ilog2_lower:
  assumes "0 < a"
  shows "pow2 (ilog2 a) \<le> a"
proof (cases "1 \<le> a")
  case True
  then have f1: "1 \<le> \<lfloor>a\<rfloor>" by linarith
  from bitlen_bounds[OF f1] have b: "1 \<le> bitlen \<lfloor>a\<rfloor>"
    and lo: "2 ^ nat (bitlen \<lfloor>a\<rfloor> - 1) \<le> \<lfloor>a\<rfloor>" by blast+
  have "pow2 (bitlen \<lfloor>a\<rfloor> - 1) = of_int (2 ^ nat (bitlen \<lfloor>a\<rfloor> - 1))"
    using b by (intro pow2_nat) simp
  also have "\<dots> \<le> of_int \<lfloor>a\<rfloor>"
    using lo by (simp only: of_int_le_iff)
  also have "\<dots> \<le> a" by simp
  finally show ?thesis using True by (simp add: ilog2_def)
next
  case False
  define n where "n = \<lfloor>1 / a\<rfloor>"
  define k where "k = bitlen n - 1"
  from False assms have "1 < 1 / a" by (simp add: field_simps)
  then have n1: "1 \<le> n" unfolding n_def by linarith
  from bitlen_bounds[OF n1] have b: "1 \<le> bitlen n"
    and hi: "n < 2 ^ nat (bitlen n)" by blast+
  have k0: "0 \<le> k" using b by (simp add: k_def)
  show ?thesis
  proof (cases "a * pow2 k = 1")
    case True
    moreover have "pow2 k \<noteq> 0"
      by (simp add: pow2_def)
    ultimately have "a = 1 / pow2 k"
      by (simp add: field_simps)
    then have "pow2 (- k) = a"
      by (simp add: pow2_neg)
    with False True show ?thesis
      by (simp add: ilog2_def n_def k_def)
  next
    case ne: False
    have "1 / a < of_int n + 1" unfolding n_def by linarith
    moreover have "of_int n + 1 \<le> (of_int (2 ^ nat (bitlen n)) :: rat)"
    proof -
      have "n + 1 \<le> 2 ^ nat (bitlen n)" using hi by simp
      then have "(of_int (n + 1) :: rat) \<le> of_int (2 ^ nat (bitlen n))"
        by (simp only: of_int_le_iff)
      then show ?thesis by simp
    qed
    moreover have "of_int (2 ^ nat (bitlen n)) = pow2 (k + 1)"
      using k0 by (simp add: pow2_nat k_def)
    ultimately have "1 / a < pow2 (k + 1)" by simp
    then have "1 / pow2 (k + 1) < a"
      using assms by (simp add: field_simps)
    then have "pow2 (- k - 1) \<le> a"
      using pow2_neg[of "k + 1"] by simp
    with False ne show ?thesis
      by (simp add: ilog2_def n_def k_def)
  qed
qed

lemma ulp_le:
  assumes "1 / 2 ^ 1074 \<le> a"
  shows "ulp a \<le> a"
proof (cases "ilog2 a \<le> - 1022")
  case True
  then have "ulp a = pow2 (- 1074)" by (simp add: ulp_def max_def)
  also have "\<dots> = 1 / 2 ^ 1074" by (simp add: pow2_def)
  finally show ?thesis using assms by simp
next
  case False
  have "(0::rat) < 1 / 2 ^ 1074" by simp
  with assms have a0: "0 < a" by linarith
  from False have "ulp a = pow2 (ilog2 a - 52)" by (simp add: ulp_def max_def)
  also have "\<dots> \<le> pow2 (ilog2 a)" by (rule pow2_mono) simp
  also have "\<dots> \<le> a" by (rule ilog2_lower[OF a0])
  finally show ?thesis .
qed

lemma ulp_pos [simp]: "0 < ulp a"
  by (simp add: ulp_def)

lemma ulp_grid: "\<exists>m::int. ulp a = of_int m / 2 ^ 1074"
  unfolding ulp_def by (rule pow2_grid) simp

lemma round_to_nonneg:
  assumes "0 \<le> a"
  shows "0 \<le> round_to (ulp a) a"
proof -
  have "0 \<le> a / ulp a"
    by (rule divide_nonneg_pos[OF assms ulp_pos])
  then have "0 \<le> round_even (a / ulp a)"
    by (rule round_even_nonneg)
  then have r: "0 \<le> (of_int (round_even (a / ulp a)) :: rat)"
    by simp
  have u: "0 \<le> ulp a"
    by (rule less_imp_le[OF ulp_pos])
  show ?thesis
    unfolding round_to_def by (rule mult_nonneg_nonneg[OF r u])
qed

lemma round_to_pos:
  assumes "1 / 2 ^ 1074 \<le> a"
  shows "0 < round_to (ulp a) a"
proof -
  have "1 \<le> a / ulp a"
    using ulp_le[OF assms] by (simp add: field_simps)
  then have "1 \<le> round_even (a / ulp a)" by (rule round_even_ge1)
  then have "0 < (of_int (round_even (a / ulp a)) :: rat)" by simp
  then show ?thesis by (simp add: round_to_def)
qed

lemma round_to_grid: "\<exists>m::int. round_to (ulp a) a = of_int m / 2 ^ 1074"
proof -
  obtain m :: int where "ulp a = of_int m / 2 ^ 1074"
    using ulp_grid by blast
  then have "round_to (ulp a) a = of_int (round_even (a / ulp a) * m) / 2 ^ 1074"
    by (simp add: round_to_def)
  then show ?thesis by blast
qed

lemma rnd_positive:
  assumes "0 < q"
  shows "rnd q = PInf \<or> (\<exists>r. 0 \<le> r \<and> rnd q = Fin r)"
  using assms round_to_nonneg[of "\<bar>q\<bar>"] by (auto simp add: rnd_def pack_def)

lemma rnd_negative:
  assumes "q < 0"
  shows "rnd q = NInf \<or> rnd q = NZero \<or> (\<exists>r. r < 0 \<and> rnd q = Fin r)"
  using assms round_to_nonneg[of "\<bar>q\<bar>"] by (auto simp add: rnd_def pack_def)

lemma rnd_positive_grid:
  assumes "1 / 2 ^ 1074 \<le> q"
  shows "rnd q = PInf \<or> (\<exists>r. 0 < r \<and> rnd q = Fin r)"
proof -
  have "(0::rat) < 1 / 2 ^ 1074" by simp
  with assms have q0: "0 < q" by linarith
  then have "0 < round_to (ulp \<bar>q\<bar>) \<bar>q\<bar>"
    using round_to_pos[of "\<bar>q\<bar>"] assms by simp
  with q0 show ?thesis by (auto simp add: rnd_def pack_def)
qed

lemma rnd_grid:
  assumes "rnd q = Fin r"
  shows "\<exists>m::int. r = of_int m / 2 ^ 1074"
proof (cases "q = 0")
  case True
  with assms have "r = of_int 0 / 2 ^ 1074" by simp
  then show ?thesis by blast
next
  case False
  obtain m :: int where m: "round_to (ulp \<bar>q\<bar>) \<bar>q\<bar> = of_int m / 2 ^ 1074"
    using round_to_grid by blast
  from assms False have "r = round_to (ulp \<bar>q\<bar>) \<bar>q\<bar> \<or> r = - round_to (ulp \<bar>q\<bar>) \<bar>q\<bar>"
    by (auto simp add: rnd_def pack_def split: if_splits)
  then have "r = of_int m / 2 ^ 1074 \<or> r = of_int (- m) / 2 ^ 1074"
    using m by simp
  then show ?thesis by blast
qed


section \<open>The comparator and the sort\<close>

lemma zero_grid: "\<exists>m::int. (0::rat) = of_int m / 2 ^ 1074"
  by (rule exI[of _ 0]) simp

lemma js_div_grid:
  assumes "is_finite (js_div x y)"
  shows "\<exists>m::int. fval (js_div x y) = of_int m / 2 ^ 1074"
proof (cases "js_div x y")
  case (Fin r)
  then have "r = 0 \<or> rnd (fval x / fval y) = Fin r"
    by (auto simp add: js_div_def signed_inf_def signed_zero_def split: if_splits)
  then show ?thesis
    using Fin zero_grid rnd_grid by auto
qed (use zero_grid in simp_all)

lemma rnd_gt_zero:
  assumes "\<exists>m::int. d = of_int m / 2 ^ 1074"
  shows "js_gt (rnd d) (Fin 0) \<longleftrightarrow> 0 < d"
proof -
  from assms obtain m :: int where m: "d = of_int m / 2 ^ 1074" by blast
  consider "d = 0" | "0 < d" | "d < 0" by linarith
  then show ?thesis
  proof cases
    case 1
    then show ?thesis by (simp add: js_gt_def js_lt_def)
  next
    case 2
    then have "0 < m" using m by (simp add: zero_less_divide_iff)
    then have "(1::rat) \<le> of_int m" by linarith
    then have "1 / 2 ^ 1074 \<le> d"
      unfolding m by (rule divide_right_mono) simp
    from rnd_positive_grid[OF this] 2 show ?thesis
      by (auto simp add: js_gt_def js_lt_def)
  next
    case 3
    from rnd_negative[OF this] 3 show ?thesis
      by (auto simp add: js_gt_def js_lt_def)
  qed
qed

lemma comparator_sign:
  assumes "is_finite a" and "is_finite b"
    and "\<exists>m::int. fval a = of_int m / 2 ^ 1074"
    and "\<exists>m::int. fval b = of_int m / 2 ^ 1074"
  shows "js_gt (js_sub b a) (Fin 0) \<longleftrightarrow> fval a < fval b"
proof -
  from assms(3,4) obtain m n :: int
    where m: "fval a = of_int m / 2 ^ 1074" and n: "fval b = of_int n / 2 ^ 1074" by blast
  have "fval b - fval a = of_int (n - m) / 2 ^ 1074"
    by (simp only: m n diff_divide_distrib of_int_diff)
  then have "\<exists>m'::int. fval b - fval a = of_int m' / 2 ^ 1074"
    by (rule exI)
  from rnd_gt_zero[OF this]
  have g: "js_gt (rnd (fval b - fval a)) (Fin 0) \<longleftrightarrow> fval a < fval b"
    by simp
  have fn: "fval (js_neg a) = - fval a"
    by (cases a) simp_all
  show ?thesis
  proof (cases "b = NZero \<and> js_neg a = NZero")
    case True
    then have "a = Fin 0" by (cases a) (simp_all split: if_splits)
    with True show ?thesis
      by (simp add: js_sub_def js_add_def js_gt_def js_lt_def)
  next
    case False
    have "js_sub b a = rnd (fval b - fval a)"
      using False assms(1,2) fn
      by (cases a; cases b) (simp_all add: js_sub_def js_add_def is_finite_def)
    with g show ?thesis by simp
  qed
qed

lemma set_sort_insert [simp]: "set (sort_insert c a bs) = insert a (set bs)"
  by (induction bs) auto

lemma length_sort_insert [simp]: "length (sort_insert c a bs) = Suc (length bs)"
  by (induction bs) auto

lemma Array_sort_Cons: "Array_sort c (x # xs) = sort_insert c x (Array_sort c xs)"
  by (simp add: Array_sort_def)

lemma Array_sort_Nil [simp]: "Array_sort c [] = []"
  by (simp add: Array_sort_def)

lemma set_Array_sort [simp]: "set (Array_sort c xs) = set xs"
  by (induction xs) (simp_all add: Array_sort_Cons)

lemma length_Array_sort [simp]: "length (Array_sort c xs) = length xs"
  by (induction xs) (simp_all add: Array_sort_Cons)

lemma sort_insert_sorted:
  fixes k :: "'a \<Rightarrow> rat"
  assumes "\<forall>b\<in>set bs. js_gt (c a b) (Fin 0) \<longleftrightarrow> k a < k b"
    and "sorted_wrt (\<lambda>x y. k y \<le> k x) bs"
  shows "sorted_wrt (\<lambda>x y. k y \<le> k x) (sort_insert c a bs)"
  using assms
proof (induction bs)
  case Nil
  then show ?case by simp
next
  case (Cons b bs)
  show ?case
  proof (cases "js_gt (c a b) (Fin 0)")
    case True
    then have "k a < k b" using Cons.prems(1) by simp
    moreover have "sorted_wrt (\<lambda>x y. k y \<le> k x) (sort_insert c a bs)"
      using Cons by simp
    ultimately show ?thesis
      using True Cons.prems(2) by auto
  next
    case False
    then have "k b \<le> k a" using Cons.prems(1) by auto
    then show ?thesis
      using False Cons.prems(2) by fastforce
  qed
qed

lemma sort_insert_filter:
  fixes k :: "'a \<Rightarrow> rat"
  assumes "\<forall>b\<in>set bs. js_gt (c a b) (Fin 0) \<longleftrightarrow> k a < k b"
  shows "filter (\<lambda>x. k x = v) (sort_insert c a bs) = filter (\<lambda>x. k x = v) (a # bs)"
  using assms
proof (induction bs)
  case Nil
  then show ?case by simp
next
  case (Cons b bs)
  show ?case
  proof (cases "js_gt (c a b) (Fin 0)")
    case True
    then have "k a < k b" using Cons.prems by simp
    moreover have "filter (\<lambda>x. k x = v) (sort_insert c a bs) = filter (\<lambda>x. k x = v) (a # bs)"
      using Cons by simp
    ultimately show ?thesis
      using True by auto
  next
    case False
    then show ?thesis by simp
  qed
qed

lemma Array_sort_sorted:
  fixes k :: "'a \<Rightarrow> rat"
  assumes "\<forall>a\<in>set xs. \<forall>b\<in>set xs. js_gt (c a b) (Fin 0) \<longleftrightarrow> k a < k b"
  shows "sorted_wrt (\<lambda>x y. k y \<le> k x) (Array_sort c xs)"
  using assms
proof (induction xs)
  case Nil
  then show ?case by simp
next
  case (Cons x xs)
  have "sorted_wrt (\<lambda>x y. k y \<le> k x) (Array_sort c xs)"
    using Cons by simp
  moreover have "\<forall>b\<in>set (Array_sort c xs). js_gt (c x b) (Fin 0) \<longleftrightarrow> k x < k b"
    using Cons.prems by simp
  ultimately show ?case
    unfolding Array_sort_Cons by (intro sort_insert_sorted)
qed

lemma Array_sort_stable:
  fixes k :: "'a \<Rightarrow> rat"
  assumes "\<forall>a\<in>set xs. \<forall>b\<in>set xs. js_gt (c a b) (Fin 0) \<longleftrightarrow> k a < k b"
  shows "filter (\<lambda>x. k x = v) (Array_sort c xs) = filter (\<lambda>x. k x = v) xs"
  using assms
proof (induction xs)
  case Nil
  then show ?case by simp
next
  case (Cons x xs)
  have ih: "filter (\<lambda>x. k x = v) (Array_sort c xs) = filter (\<lambda>x. k x = v) xs"
    using Cons by simp
  have "\<forall>b\<in>set (Array_sort c xs). js_gt (c x b) (Fin 0) \<longleftrightarrow> k x < k b"
    using Cons.prems by simp
  then have "filter (\<lambda>x. k x = v) (sort_insert c x (Array_sort c xs))
      = filter (\<lambda>x. k x = v) (x # Array_sort c xs)"
    by (rule sort_insert_filter)
  with ih show ?case
    by (simp add: Array_sort_Cons)
qed

section \<open>\<open>convertToPlayerFormat\<close>\<close>

lemma ex_enumerate:
  "(\<exists>ip\<in>set (enumerate 0 ys). P (fst ip) (snd ip)) \<longleftrightarrow> (\<exists>i < length ys. P i (ys ! i))"
proof
  assume "\<exists>ip\<in>set (enumerate 0 ys). P (fst ip) (snd ip)"
  then obtain i y where "(i, y) \<in> set (enumerate 0 ys)" and p: "P i y"
    by auto
  then have "i < length ys" and "ys ! i = y"
    by (simp_all add: in_set_enumerate_eq)
  with p show "\<exists>i < length ys. P i (ys ! i)"
    by blast
next
  assume "\<exists>i < length ys. P i (ys ! i)"
  then obtain i where i: "i < length ys" and p: "P i (ys ! i)"
    by blast
  from i have "(i, ys ! i) \<in> set (enumerate 0 ys)"
    by (simp add: in_set_enumerate_eq)
  with p show "\<exists>ip\<in>set (enumerate 0 ys). P (fst ip) (snd ip)"
    by force
qed

lemma in_set_converted_rows:
  "pl \<in> set (converted_rows env xs) \<longleftrightarrow>
     (\<exists>i < length (filter (\<lambda>p. js_gt (GP p) (Fin 10)) xs).
        pl = convert_player env i (filter (\<lambda>p. js_gt (GP p) (Fin 10)) xs ! i))"
proof -
  let ?ys = "filter (\<lambda>p. js_gt (GP p) (Fin 10)) xs"
  have "pl \<in> set (converted_rows env xs) \<longleftrightarrow>
      (\<exists>ip\<in>set (enumerate 0 ?ys). pl = convert_player env (fst ip) (snd ip))"
    by (auto simp add: converted_rows_def case_prod_beta image_iff)
  also have "\<dots> \<longleftrightarrow> (\<exists>i < length ?ys. pl = convert_player env i (?ys ! i))"
    by (rule ex_enumerate)
  finally show ?thesis .
qed

lemma length_converted_rows [simp]:
  "length (converted_rows env xs) = length (filter (\<lambda>p. js_gt (GP p) (Fin 10)) xs)"
  by (simp add: converted_rows_def)

lemma set_convertToPlayerFormat:
  "set (convertToPlayerFormat env xs) = set (converted_rows env xs)"
  by (simp add: convertToPlayerFormat_def)

lemma converted_row_source:
  assumes "pl \<in> set (converted_rows env xs)"
  shows "\<exists>p\<in>set xs. \<exists>i. js_gt (GP p) (Fin 10) \<and> pl = convert_player env i p"
proof -
  let ?ys = "filter (\<lambda>p. js_gt (GP p) (Fin 10)) xs"
  from assms obtain i where i: "i < length ?ys" and pl: "pl = convert_player env i (?ys ! i)"
    unfolding in_set_converted_rows by blast
  from i have "?ys ! i \<in> set ?ys" by (rule nth_mem)
  then have "?ys ! i \<in> set xs \<and> js_gt (GP (?ys ! i)) (Fin 10)" by simp
  with pl show ?thesis by blast
qed

lemma converted_row_kept:
  assumes "p \<in> set xs" and "js_gt (GP p) (Fin 10)"
  shows "\<exists>i. convert_player env i p \<in> set (converted_rows env xs)"
proof -
  let ?ys = "filter (\<lambda>p. js_gt (GP p) (Fin 10)) xs"
  from assms have "p \<in> set ?ys" by simp
  then obtain i where "i < length ?ys" and "?ys ! i = p"
    unfolding in_set_conv_nth by blast
  then show ?thesis
    unfolding in_set_converted_rows by blast
qed

lemma js_gt_not_le: "js_gt x y \<Longrightarrow> \<not> js_le x y"
  by (cases x; cases y) (auto simp add: js_gt_def js_le_def js_lt_def js_eq_def)

lemma convert_player_identity [simp]:
  "gamesPlayed (convert_player env i p) = GP p"
  "name (convert_player env i p) = PLAYER_NAME p"
  by (simp_all add: convert_player_def Let_def)

text \<open>
  C5.  For every input list, \<open>convertToPlayerFormat\<close> (a total function: nothing is
  raised) drops every record with \<open>GP <= 10\<close> and keeps every record with \<open>GP > 10\<close>: no
  player of the output has \<open>gamesPlayed <= 10\<close>, every input record with \<open>GP > 10\<close> is in
  the output, the output has as many records as the input has records with \<open>GP > 10\<close>,
  and so at most as many as the input.
\<close>

theorem admission_filter:
  "(\<forall>pl\<in>set (convertToPlayerFormat env xs).
      js_gt (gamesPlayed pl) (Fin 10) \<and> \<not> js_le (gamesPlayed pl) (Fin 10))
   \<and> (\<forall>p\<in>set xs. js_gt (GP p) (Fin 10) \<longrightarrow>
        (\<exists>i. convert_player env i p \<in> set (convertToPlayerFormat env xs)))
   \<and> length (convertToPlayerFormat env xs)
        = length (filter (\<lambda>p. js_gt (GP p) (Fin 10)) xs)
   \<and> length (convertToPlayerFormat env xs) \<le> length xs"
proof -
  have "js_gt (gamesPlayed pl) (Fin 10) \<and> \<not> js_le (gamesPlayed pl) (Fin 10)"
    if "pl \<in> set (convertToPlayerFormat env xs)" for pl
  proof -
    from that obtain p i where "js_gt (GP p) (Fin 10)" and "pl = convert_player env i p"
      unfolding set_convertToPlayerFormat using converted_row_source by blast
    then show ?thesis by (simp add: js_gt_not_le)
  qed
  moreover have "\<exists>i. convert_player env i p \<in> set (convertToPlayerFormat env xs)"
    if "p \<in> set xs" and "js_gt (GP p) (Fin 10)" for p
    unfolding set_convertToPlayerFormat using that by (rule converted_row_kept)
  moreover have "length (convertToPlayerFormat env xs)
      = length (filter (\<lambda>p. js_gt (GP p) (Fin 10)) xs)"
    by (simp add: convertToPlayerFormat_def)
  ultimately show ?thesis by simp
qed

lemma GP_bench: "\<not> js_gt (GP bench_line) (Fin 10)"
  by (simp add: bench_line_def stats0_def js_gt_def js_lt_def)

lemma convert_bench_fixture:
  "convertToPlayerFormat env [bench_line, fixture_line] = [convert_player env 0 fixture_line]"
  by (simp add: convertToPlayerFormat_def converted_rows_def GP_fixture GP_bench
      enumerate_eq_zip)

theorem admission_filter_witness:
  "convertToPlayerFormat env0 [bench_line, fixture_line] = [convert_player env0 0 fixture_line]
   \<and> js_gt (gamesPlayed (convert_player env0 0 fixture_line)) (Fin 10)
   \<and> \<not> js_le (gamesPlayed (convert_player env0 0 fixture_line)) (Fin 10)
   \<and> length (convertToPlayerFormat env0 [bench_line, fixture_line]) = 1"
  using admission_filter[of env0 "[bench_line, fixture_line]"]
  by (simp add: convert_bench_fixture GP_fixture GP_bench)


lemma per_convert_player:
  "per (convert_player env i p) = js_div (Math_round (js_mul (calculatePER p) (Fin 10))) (Fin 10)"
  by (simp add: convert_player_def Let_def)

lemma per_grid:
  assumes "pl \<in> set (converted_rows env xs)" and "is_finite (per pl)"
  shows "\<exists>m::int. fval (per pl) = of_int m / 2 ^ 1074"
proof -
  from assms(1) obtain p i where "pl = convert_player env i p"
    using converted_row_source by blast
  then have "per pl = js_div (Math_round (js_mul (calculatePER p) (Fin 10))) (Fin 10)"
    by (simp only: per_convert_player)
  with assms(2) show ?thesis
    using js_div_grid by simp
qed

lemma js_ge_finite:
  "is_finite a \<Longrightarrow> is_finite b \<Longrightarrow> js_ge a b \<longleftrightarrow> fval b \<le> fval a"
  by (cases a; cases b)
     (auto simp add: is_finite_def js_ge_def js_le_def js_lt_def js_eq_def)

lemma js_eq_finite:
  "is_finite a \<Longrightarrow> js_eq a v \<longleftrightarrow> is_finite v \<and> fval a = fval v"
  by (cases a; cases v) (auto simp add: is_finite_def js_eq_def)

text \<open>
  C6.  For every input list whose computed \<open>per\<close> values are all finite, the list that
  \<open>convertToPlayerFormat\<close> returns is sorted by \<open>per\<close> in descending order, and the sort
  is stable: for every value, the records with that \<open>per\<close> stand in the order in which
  the filtered and converted input has them.
\<close>

theorem sorted_by_per_stable:
  assumes "\<forall>pl\<in>set (convertToPlayerFormat env xs). is_finite (per pl)"
  shows "sorted_wrt (\<lambda>a b. js_ge (per a) (per b)) (convertToPlayerFormat env xs)
       \<and> (\<forall>v. filter (\<lambda>pl. js_eq (per pl) v) (convertToPlayerFormat env xs)
              = filter (\<lambda>pl. js_eq (per pl) v) (converted_rows env xs))"
proof -
  define rows where "rows = converted_rows env xs"
  define c where "c = (\<lambda>(a::Player) (b::Player). js_sub (per b) (per a))"
  define k where "k = (\<lambda>pl::Player. fval (per pl))"
  have out: "convertToPlayerFormat env xs = Array_sort c rows"
    by (simp add: convertToPlayerFormat_def rows_def c_def)
  have set_out: "set (convertToPlayerFormat env xs) = set rows"
    by (simp only: out set_Array_sort)
  have fin: "is_finite (per pl)" if "pl \<in> set rows" for pl
    using assms that unfolding set_out by blast
  have grid: "\<exists>m::int. fval (per pl) = of_int m / 2 ^ 1074" if "pl \<in> set rows" for pl
  proof (rule per_grid)
    show "pl \<in> set (converted_rows env xs)"
      using that by (simp only: rows_def)
    show "is_finite (per pl)"
      using that by (rule fin)
  qed
  have cmp: "\<forall>a\<in>set rows. \<forall>b\<in>set rows. js_gt (c a b) (Fin 0) \<longleftrightarrow> k a < k b"
  proof (intro ballI)
    fix a b
    assume a: "a \<in> set rows" and b: "b \<in> set rows"
    have "js_gt (js_sub (per b) (per a)) (Fin 0) \<longleftrightarrow> fval (per a) < fval (per b)"
      by (rule comparator_sign[OF fin[OF a] fin[OF b] grid[OF a] grid[OF b]])
    then show "js_gt (c a b) (Fin 0) \<longleftrightarrow> k a < k b"
      by (simp only: c_def k_def)
  qed
  have "sorted_wrt (\<lambda>x y. k y \<le> k x) (Array_sort c rows)"
    using cmp by (rule Array_sort_sorted)
  then have sorted: "sorted_wrt (\<lambda>a b. js_ge (per a) (per b)) (Array_sort c rows)"
  proof (rule sorted_wrt_mono_rel[rotated])
    fix x y
    assume "x \<in> set (Array_sort c rows)" and "y \<in> set (Array_sort c rows)" and "k y \<le> k x"
    then have "is_finite (per x)" and "is_finite (per y)" and "fval (per y) \<le> fval (per x)"
      by (simp_all add: fin k_def)
    then show "js_ge (per x) (per y)"
      by (simp only: js_ge_finite)
  qed
  have stable: "filter (\<lambda>pl. js_eq (per pl) v) (Array_sort c rows)
      = filter (\<lambda>pl. js_eq (per pl) v) rows" for v
  proof -
    have e: "js_eq (per pl) v \<longleftrightarrow> is_finite v \<and> k pl = fval v" if "pl \<in> set rows" for pl
      using fin[OF that] by (simp add: js_eq_finite k_def)
    have "filter (\<lambda>pl. js_eq (per pl) v) (Array_sort c rows)
        = filter (\<lambda>pl. is_finite v \<and> k pl = fval v) (Array_sort c rows)"
      by (rule filter_cong) (simp_all add: e)
    also have "\<dots> = filter (\<lambda>pl. is_finite v \<and> k pl = fval v) rows"
    proof (cases "is_finite v")
      case True
      have "filter (\<lambda>pl. k pl = fval v) (Array_sort c rows) = filter (\<lambda>pl. k pl = fval v) rows"
        using cmp by (rule Array_sort_stable)
      with True show ?thesis by simp
    next
      case False
      then show ?thesis by simp
    qed
    also have "\<dots> = filter (\<lambda>pl. js_eq (per pl) v) rows"
      by (rule filter_cong) (simp_all add: e)
    finally show ?thesis .
  qed
  from sorted stable show ?thesis
    unfolding out rows_def by blast
qed

lemma calculatePER_fixture:
  "calculatePER fixture_line = Fin (4834168564998993 / 562949953421312)"
  using calculatePER_clamp[OF js_gt_zero_not_eq[OF MIN_fixture]]
  by (simp add: scaled_uPER_fixture Math_max_def Math_min_def js_lt_def)

lemma per_fixture_row:
  "per (convert_player env i fixture_line) = Fin (4841369599423283 / 562949953421312)"
  by (simp add: per_convert_player calculatePER_fixture) (simp add: js_eval)

lemma calculatePER_rookies: "calculatePER rookie_a = Fin 0" "calculatePER rookie_b = Fin 0"
  by (simp_all add: calculatePER_def rookie_a_def rookie_b_def stats0_def js_eq_def)

lemma per_rookie_rows:
  "per (convert_player env i rookie_a) = Fin 0" "per (convert_player env i rookie_b) = Fin 0"
  by (simp_all add: per_convert_player calculatePER_rookies js_mul_def js_div_def
      signed_zero_def)

lemma GP_rookies: "js_gt (GP rookie_a) (Fin 10)" "js_gt (GP rookie_b) (Fin 10)"
  by (simp_all add: rookie_a_def rookie_b_def stats0_def js_gt_def js_lt_def)

lemma converted_rows_three:
  "converted_rows env three_lines =
     [convert_player env 0 rookie_a, convert_player env 1 fixture_line,
      convert_player env 2 rookie_b]"
  by (simp add: converted_rows_def three_lines_def GP_fixture GP_rookies eval_nat_numeral)

lemma convertToPlayerFormat_three:
  "convertToPlayerFormat env three_lines =
     [convert_player env 1 fixture_line, convert_player env 0 rookie_a,
      convert_player env 2 rookie_b]"
  by (simp add: convertToPlayerFormat_def converted_rows_three Array_sort_def per_fixture_row
      per_rookie_rows js_sub_def js_add_def js_gt_def js_lt_def)
     (simp add: js_eval)

theorem sorted_by_per_stable_witness:
  "is_finite (per (convert_player env0 1 fixture_line))
   \<and> is_finite (per (convert_player env0 0 rookie_a))
   \<and> is_finite (per (convert_player env0 2 rookie_b))
   \<and> convertToPlayerFormat env0 three_lines =
       [convert_player env0 1 fixture_line, convert_player env0 0 rookie_a,
        convert_player env0 2 rookie_b]
   \<and> sorted_wrt (\<lambda>a b. js_ge (per a) (per b)) (convertToPlayerFormat env0 three_lines)
   \<and> filter (\<lambda>pl. js_eq (per pl) (Fin 0)) (convertToPlayerFormat env0 three_lines)
       = filter (\<lambda>pl. js_eq (per pl) (Fin 0)) (converted_rows env0 three_lines)"
proof -
  have fin: "is_finite (per (convert_player env0 1 fixture_line))"
    "is_finite (per (convert_player env0 0 rookie_a))"
    "is_finite (per (convert_player env0 2 rookie_b))"
    by (simp_all add: per_fixture_row per_rookie_rows is_finite_def)
  then have "\<forall>pl\<in>set (convertToPlayerFormat env0 three_lines). is_finite (per pl)"
    by (simp add: convertToPlayerFormat_three)
  from sorted_by_per_stable[OF this] fin show ?thesis
    by (simp add: convertToPlayerFormat_three)
qed


section \<open>Rounding of the per-game fields\<close>

lemma js_ge_Fin_zero: "js_ge (Fin q) (Fin 0) \<longleftrightarrow> 0 \<le> q"
  by (auto simp add: js_ge_def js_le_def js_lt_def js_eq_def)

lemma Math_round_not_neg: "\<not> is_neg y \<or> y = NZero \<Longrightarrow> Math_round y = round_half_away y"
  by (cases y) (auto simp add: Let_def)

lemma js_mul_ten_nonneg:
  assumes "js_ge x (Fin 0)"
  shows "\<not> is_neg (js_mul x (Fin 10)) \<or> js_mul x (Fin 10) = NZero"
proof (cases x)
  case (Fin q)
  with assms have "0 \<le> q"
    by (simp add: js_ge_Fin_zero)
  show ?thesis
  proof (cases "q = 0")
    case True
    with Fin show ?thesis by (simp add: js_mul_def signed_zero_def)
  next
    case False
    with \<open>0 \<le> q\<close> have "0 < q * 10" by simp
    from rnd_positive[OF this] Fin False show ?thesis
      by (auto simp add: js_mul_def)
  qed
qed (use assms in \<open>simp_all add: js_ge_def js_le_def js_lt_def js_eq_def js_mul_def
      signed_inf_def signed_zero_def\<close>)

lemma round_tenth_nonneg:
  assumes "js_ge x (Fin 0)"
  shows "round_tenth x = round_half_away_tenth x"
  unfolding round_half_away_tenth_def
  using Math_round_not_neg[OF js_mul_ten_nonneg[OF assms]] by simp

lemma round_tenth_clamped:
  "round_tenth (Math_max (Fin 0) (Math_min (Fin 40) v))
     = round_half_away_tenth (Math_max (Fin 0) (Math_min (Fin 40) v))"
proof (cases "is_nan v")
  case True
  then show ?thesis
    by (simp add: clamp_NaN round_half_away_tenth_def)
next
  case False
  from clamp_range[OF this] obtain q
    where "Math_max (Fin 0) (Math_min (Fin 40) v) = Fin q" and "0 \<le> q" by blast
  then show ?thesis
    using round_tenth_nonneg[of "Fin q"]
    by (simp add: js_ge_Fin_zero)
qed

lemma round_tenth_calculatePER:
  "round_tenth (calculatePER p) = round_half_away_tenth (calculatePER p)"
proof (cases "js_eq (MIN' p) (Fin 0)")
  case True
  then have "calculatePER p = Fin 0" by (simp add: calculatePER_def)
  then show ?thesis
    using round_tenth_nonneg[of "Fin 0"]
    by (simp add: js_ge_Fin_zero)
next
  case False
  show ?thesis
    by (simp only: calculatePER_clamp[OF False] round_tenth_clamped)
qed

lemma round_tenth_generateMLPrediction:
  "round_tenth (generateMLPrediction r p a) = round_half_away_tenth (generateMLPrediction r p a)"
  unfolding generateMLPrediction_def Let_def by (rule round_tenth_clamped)

lemma round_half_away_tenth_examples:
  "round_half_away_tenth (lit (2734999 / 100000)) = lit (273 / 10)"
  "round_half_away_tenth (lit (2735 / 100)) = lit (274 / 10)"
  by (simp_all add: round_half_away_tenth_def js_eval)

lemma nonneg_rounding_line: "nonneg_per_game rounding_line"
  by (simp add: nonneg_per_game_def rounding_line_def stats0_def js_eval)

lemma convert_rounding_line:
  "convertToPlayerFormat env [rounding_line] = [convert_player env 0 rounding_line]"
  by (simp add: convertToPlayerFormat_def converted_rows_def rounding_line_def stats0_def
      js_gt_def js_lt_def)

text \<open>
  C8.  \<open>convertToPlayerFormat\<close> rounds every per-game numeric field of each surviving
  record (minutes, points, rebounds, assists, steals, blocks, turnovers, the made and
  attempted shooting pairs, \<open>per\<close> and \<open>predictedPER\<close>) to one decimal place, half away
  from zero, computed as \<open>round(x * 10) / 10\<close>: for every input whose per-game statistics
  are non-negative numbers, as the data model has them, each of these fields of an
  output record is that rounding of the raw value (\<open>per\<close> and \<open>predictedPER\<close> of what
  \<open>calculatePER\<close> and \<open>generateMLPrediction\<close> return).  A raw value of \<open>27.34999\<close> is
  normalised to \<open>27.3\<close> and a raw value of \<open>27.35\<close> to \<open>27.4\<close>.
\<close>

theorem rounding_of_fields:
  assumes "\<forall>p\<in>set xs. nonneg_per_game p"
  shows
  "(\<forall>pl\<in>set (convertToPlayerFormat env xs). \<exists>p\<in>set xs. \<exists>i.
       minutes pl = round_half_away_tenth (MIN' p)
     \<and> points pl = round_half_away_tenth (PTS p)
     \<and> rebounds pl = round_half_away_tenth (REB p)
     \<and> assists pl = round_half_away_tenth (AST p)
     \<and> steals pl = round_half_away_tenth (STL p)
     \<and> blocks pl = round_half_away_tenth (BLK p)
     \<and> turnovers pl = round_half_away_tenth (TOV p)
     \<and> fieldGoalsMade pl = round_half_away_tenth (FGM p)
     \<and> fieldGoalsAttempted pl = round_half_away_tenth (FGA p)
     \<and> threePointersMade pl = round_half_away_tenth (FG3M p)
     \<and> threePointersAttempted pl = round_half_away_tenth (FG3A p)
     \<and> freeThrowsMade pl = round_half_away_tenth (FTM p)
     \<and> freeThrowsAttempted pl = round_half_away_tenth (FTA p)
     \<and> per pl = round_half_away_tenth (calculatePER p)
     \<and> predictedPER pl
         = round_half_away_tenth (generateMLPrediction (random env (2 * i)) p (calculatePER p)))
   \<and> round_half_away_tenth (lit (2734999 / 100000)) = lit (273 / 10)
   \<and> round_half_away_tenth (lit (2735 / 100)) = lit (274 / 10)"
proof -
  have "\<exists>p\<in>set xs. \<exists>i.
       minutes pl = round_half_away_tenth (MIN' p)
     \<and> points pl = round_half_away_tenth (PTS p)
     \<and> rebounds pl = round_half_away_tenth (REB p)
     \<and> assists pl = round_half_away_tenth (AST p)
     \<and> steals pl = round_half_away_tenth (STL p)
     \<and> blocks pl = round_half_away_tenth (BLK p)
     \<and> turnovers pl = round_half_away_tenth (TOV p)
     \<and> fieldGoalsMade pl = round_half_away_tenth (FGM p)
     \<and> fieldGoalsAttempted pl = round_half_away_tenth (FGA p)
     \<and> threePointersMade pl = round_half_away_tenth (FG3M p)
     \<and> threePointersAttempted pl = round_half_away_tenth (FG3A p)
     \<and> freeThrowsMade pl = round_half_away_tenth (FTM p)
     \<and> freeThrowsAttempted pl = round_half_away_tenth (FTA p)
     \<and> per pl = round_half_away_tenth (calculatePER p)
     \<and> predictedPER pl
         = round_half_away_tenth (generateMLPrediction (random env (2 * i)) p (calculatePER p))"
    if "pl \<in> set (convertToPlayerFormat env xs)" for pl
  proof -
    from that obtain p i where p: "p \<in> set xs" and pl: "pl = convert_player env i p"
      unfolding set_convertToPlayerFormat using converted_row_source by blast
    from assms p have "nonneg_per_game p"
      by blast
    then have n: "js_ge (MIN' p) (Fin 0)" "js_ge (PTS p) (Fin 0)" "js_ge (REB p) (Fin 0)"
      "js_ge (AST p) (Fin 0)" "js_ge (STL p) (Fin 0)" "js_ge (BLK p) (Fin 0)"
      "js_ge (TOV p) (Fin 0)" "js_ge (FGM p) (Fin 0)" "js_ge (FGA p) (Fin 0)"
      "js_ge (FG3M p) (Fin 0)" "js_ge (FG3A p) (Fin 0)" "js_ge (FTM p) (Fin 0)"
      "js_ge (FTA p) (Fin 0)"
      by (simp_all add: nonneg_per_game_def)
    have "per pl = round_half_away_tenth (calculatePER p)"
      and "predictedPER pl
         = round_half_away_tenth (generateMLPrediction (random env (2 * i)) p (calculatePER p))"
      unfolding pl
      by (simp_all add: convert_player_def Let_def round_tenth_calculatePER
          round_tenth_generateMLPrediction)
    moreover have "minutes pl = round_half_away_tenth (MIN' p)
     \<and> points pl = round_half_away_tenth (PTS p)
     \<and> rebounds pl = round_half_away_tenth (REB p)
     \<and> assists pl = round_half_away_tenth (AST p)
     \<and> steals pl = round_half_away_tenth (STL p)
     \<and> blocks pl = round_half_away_tenth (BLK p)
     \<and> turnovers pl = round_half_away_tenth (TOV p)
     \<and> fieldGoalsMade pl = round_half_away_tenth (FGM p)
     \<and> fieldGoalsAttempted pl = round_half_away_tenth (FGA p)
     \<and> threePointersMade pl = round_half_away_tenth (FG3M p)
     \<and> threePointersAttempted pl = round_half_away_tenth (FG3A p)
     \<and> freeThrowsMade pl = round_half_away_tenth (FTM p)
     \<and> freeThrowsAttempted pl = round_half_away_tenth (FTA p)"
      unfolding pl by (simp add: convert_player_def Let_def n round_tenth_nonneg)
    ultimately show ?thesis
      using p by blast
  qed
  then show ?thesis
    using round_half_away_tenth_examples by blast
qed

theorem rounding_of_fields_witness:
  "nonneg_per_game rounding_line
   \<and> MIN' rounding_line = lit (2734999 / 100000)
   \<and> PTS rounding_line = lit (2735 / 100)
   \<and> convertToPlayerFormat env0 [rounding_line] = [convert_player env0 0 rounding_line]
   \<and> minutes (convert_player env0 0 rounding_line) = lit (273 / 10)
   \<and> points (convert_player env0 0 rounding_line) = lit (274 / 10)"
proof -
  have f: "MIN' rounding_line = lit (2734999 / 100000)" "PTS rounding_line = lit (2735 / 100)"
    by (simp_all add: rounding_line_def stats0_def)
  have "\<forall>p\<in>set [rounding_line]. nonneg_per_game p"
    by (simp add: nonneg_rounding_line)
  from rounding_of_fields[OF this, of env0]
  have "minutes (convert_player env0 0 rounding_line) = round_half_away_tenth (MIN' rounding_line)"
    and "points (convert_player env0 0 rounding_line) = round_half_away_tenth (PTS rounding_line)"
    and "round_half_away_tenth (lit (2734999 / 100000)) = lit (273 / 10)"
    and "round_half_away_tenth (lit (2735 / 100)) = lit (274 / 10)"
    by (simp_all add: convert_rounding_line)
  then show ?thesis
    using nonneg_rounding_line by (simp add: f convert_rounding_line)
qed


section \<open>Magnitudes: when no operation overflows\<close>

lemma pow2_powi: "pow2 k = 2 powi k"
  by (simp add: pow2_def power_int_def field_simps)

lemma pow2_add: "pow2 (j + k) = pow2 j * pow2 k"
  by (simp add: pow2_powi power_int_add)

lemma pow2_diff: "pow2 (j - k) = pow2 j / pow2 k"
  by (simp add: pow2_powi power_int_diff)

lemma pow2_less: "j < k \<Longrightarrow> pow2 j < pow2 k"
  by (simp add: pow2_powi power_int_strict_increasing)

lemma pow2_le_imp: "pow2 j \<le> pow2 k \<Longrightarrow> j \<le> k"
  using pow2_less[of k j] by (cases "j \<le> k") simp_all

lemma pow2_double: "pow2 (k + 1) = 2 * pow2 k"
  by (simp add: pow2_add) (simp add: pow2_def)

lemma round_even_le: "r \<le> of_int n \<Longrightarrow> round_even r \<le> n"
proof -
  assume le: "r \<le> of_int n"
  then have f: "\<lfloor>r\<rfloor> \<le> n" by (simp add: floor_le_iff)
  show ?thesis
  proof (cases "\<lfloor>r\<rfloor> = n")
    case True
    then have "of_int n \<le> r" by (metis of_int_floor_le)
    with le have "r = of_int n" by simp
    then show ?thesis by (simp add: round_even_def)
  next
    case False
    with f have "\<lfloor>r\<rfloor> + 1 \<le> n" by simp
    then show ?thesis by (simp add: round_even_def)
  qed
qed

lemma round_even_ge: "of_int n \<le> r \<Longrightarrow> n \<le> round_even r"
proof -
  assume "of_int n \<le> r"
  then have "n \<le> \<lfloor>r\<rfloor>" by (simp add: le_floor_iff)
  then show ?thesis by (simp add: round_even_def)
qed

lemma ilog2_le:
  assumes "0 < a" and "a \<le> pow2 k"
  shows "ilog2 a \<le> k"
proof (rule pow2_le_imp)
  show "pow2 (ilog2 a) \<le> pow2 k"
    using ilog2_lower[OF assms(1)] assms(2) by simp
qed

lemma pow2_multiple:
  assumes "j \<le> k"
  shows "pow2 k = of_int (2 ^ nat (k - j)) * pow2 j"
proof -
  have "pow2 k = pow2 ((k - j) + j)" by simp
  also have "\<dots> = pow2 (k - j) * pow2 j" by (rule pow2_add)
  also have "pow2 (k - j) = of_int (2 ^ nat (k - j))"
    using assms by (intro pow2_nat) simp
  finally show ?thesis .
qed

lemma round_to_le_pow2:
  assumes "0 < a" and "a \<le> pow2 k" and "- 1074 \<le> k"
  shows "round_to (ulp a) a \<le> pow2 k"
proof -
  define e where "e = max (ilog2 a) (- 1022) - 52"
  have u: "ulp a = pow2 e" by (simp add: ulp_def e_def)
  have "ilog2 a \<le> k" using assms(1,2) by (rule ilog2_le)
  then have ek: "e \<le> k" using assms(3) by (simp add: e_def)
  define N :: int where "N = 2 ^ nat (k - e)"
  have pk: "pow2 k = of_int N * pow2 e"
    unfolding N_def using ek by (rule pow2_multiple)
  have "a / pow2 e \<le> of_int N"
    using assms(2) by (simp add: pk field_simps)
  then have "round_even (a / pow2 e) \<le> N" by (rule round_even_le)
  then have "(of_int (round_even (a / pow2 e)) :: rat) \<le> of_int N" by simp
  then have "of_int (round_even (a / pow2 e)) * pow2 e \<le> of_int N * pow2 e"
    by (rule mult_right_mono) (simp add: less_imp_le)
  then show ?thesis by (simp add: round_to_def u pk)
qed

lemma round_to_ge_pow2:
  assumes "pow2 k \<le> a" and "- 1074 \<le> k"
  shows "pow2 k \<le> round_to (ulp a) a"
proof -
  define e where "e = max (ilog2 a) (- 1022) - 52"
  have u: "ulp a = pow2 e" by (simp add: ulp_def e_def)
  have a0: "0 < a" using assms(1) pow2_pos[of k] by linarith
  show ?thesis
  proof (cases "e \<le> k")
    case True
    define N :: int where "N = 2 ^ nat (k - e)"
    have pk: "pow2 k = of_int N * pow2 e"
      unfolding N_def using True by (rule pow2_multiple)
    have "of_int N \<le> a / pow2 e"
      using assms(1) by (simp add: pk field_simps)
    then have "N \<le> round_even (a / pow2 e)" by (rule round_even_ge)
    then have "(of_int N :: rat) \<le> of_int (round_even (a / pow2 e))" by simp
    then have "of_int N * pow2 e \<le> of_int (round_even (a / pow2 e)) * pow2 e"
      by (rule mult_right_mono) (simp add: less_imp_le)
    then show ?thesis by (simp add: round_to_def u pk)
  next
    case False
    then have big: "k < e" by simp
    with assms(2) have "- 1022 < e + 52" by simp
    then have il: "ilog2 a = e + 52" by (simp add: e_def max_def split: if_splits)
    define N :: int where "N = 2 ^ 52"
    have pe: "pow2 (e + 52) = of_int N * pow2 e"
      using pow2_multiple[of e "e + 52"] by (simp add: N_def)
    have "pow2 (e + 52) \<le> a"
      using ilog2_lower[OF a0] by (simp add: il)
    then have "of_int N \<le> a / pow2 e"
      by (simp add: pe field_simps)
    then have "N \<le> round_even (a / pow2 e)" by (rule round_even_ge)
    then have "(of_int N :: rat) \<le> of_int (round_even (a / pow2 e))" by simp
    then have "of_int N * pow2 e \<le> of_int (round_even (a / pow2 e)) * pow2 e"
      by (rule mult_right_mono) (simp add: less_imp_le)
    then have "pow2 (e + 52) \<le> round_to (ulp a) a"
      by (simp add: round_to_def u pe)
    moreover have "pow2 k \<le> pow2 (e + 52)"
      using big by (intro pow2_mono) simp
    ultimately show ?thesis by simp
  qed
qed


lemma rnd_mag:
  assumes "\<bar>q\<bar> \<le> pow2 k" and "- 1074 \<le> k" and "k \<le> 1023"
  shows "mag k (rnd q)"
proof (cases "q = 0")
  case True
  then show ?thesis by (simp add: mag_def is_finite_def less_imp_le)
next
  case False
  define r where "r = round_to (ulp \<bar>q\<bar>) \<bar>q\<bar>"
  have r1: "r \<le> pow2 k"
    unfolding r_def using False assms(1,2) by (intro round_to_le_pow2) simp_all
  have r0: "0 \<le> r"
    unfolding r_def by (rule round_to_nonneg) simp
  have "pow2 k < pow2 1024"
    using assms(3) by (intro pow2_less) simp
  with r1 have no: "\<not> pow2 1024 \<le> r" by simp
  have "rnd q = pack (q < 0) r"
    using False by (simp add: rnd_def r_def)
  with no r0 r1 show ?thesis
    by (auto simp add: pack_def mag_def is_finite_def)
qed

lemma rnd_between:
  assumes "pow2 k \<le> q" and "q \<le> pow2 j" and "- 1074 \<le> k" and "j \<le> 1023"
  shows "between k j (rnd q)"
proof -
  have q0: "0 < q" using assms(1) pow2_pos[of k] by linarith
  have kj: "k \<le> j" using assms(1,2) by (intro pow2_le_imp) simp
  define r where "r = round_to (ulp \<bar>q\<bar>) \<bar>q\<bar>"
  have r1: "r \<le> pow2 j"
    unfolding r_def using q0 assms(2,3) kj by (intro round_to_le_pow2) simp_all
  have r2: "pow2 k \<le> r"
    unfolding r_def using q0 assms(1,3) by (intro round_to_ge_pow2) simp_all
  have r0: "0 < r" using r2 pow2_pos[of k] by linarith
  have "pow2 j < pow2 1024"
    using assms(4) by (intro pow2_less) simp
  with r1 have no: "\<not> pow2 1024 \<le> r" by simp
  have "rnd q = pack (q < 0) r"
    using q0 by (simp add: rnd_def r_def)
  with no r0 r1 r2 q0 show ?thesis
    by (auto simp add: pack_def between_def is_finite_def)
qed

lemma pow2_nonneg [simp]: "0 \<le> pow2 k"
  by (rule less_imp_le) (rule pow2_pos)

lemma pow2_le_pos: "pow2 k \<le> a \<Longrightarrow> 0 < a"
  using pow2_pos[of k] by (rule less_le_trans)

lemma js_add_finite:
  "is_finite x \<Longrightarrow> is_finite y \<Longrightarrow>
     js_add x y = (if x = NZero \<and> y = NZero then NZero else rnd (fval x + fval y))"
  by (cases x; cases y) (simp_all add: js_add_def is_finite_def)

lemma js_mul_finite:
  "is_finite x \<Longrightarrow> is_finite y \<Longrightarrow>
     js_mul x y = (if is_zero x \<or> is_zero y then signed_zero (is_neg x \<noteq> is_neg y)
                   else rnd (fval x * fval y))"
  by (cases x; cases y) (simp_all add: js_mul_def is_finite_def)

lemma js_div_finite:
  "is_finite x \<Longrightarrow> is_finite y \<Longrightarrow> \<not> is_zero y \<Longrightarrow>
     js_div x y = (if is_zero x then signed_zero (is_neg x \<noteq> is_neg y)
                   else rnd (fval x / fval y))"
  by (cases x; cases y) (simp_all add: js_div_def is_finite_def)

lemma fval_js_neg [simp]: "fval (js_neg x) = - fval x"
  by (cases x) simp_all

lemma mag_NZero [simp]: "mag k NZero"
  by (simp add: mag_def is_finite_def less_imp_le)

lemma mag_signed_zero [simp]: "mag k (signed_zero b)"
  by (simp add: mag_def is_finite_def signed_zero_def less_imp_le)

lemma mag_neg: "mag k (js_neg x) = mag k x"
  by (simp add: mag_def)

lemma mag_mono: "mag j x \<Longrightarrow> j \<le> k \<Longrightarrow> mag k x"
  using pow2_mono[of j k] by (simp add: mag_def)

lemma mag_add:
  assumes "mag j x" and "mag k y" and "j < m" and "k < m" and "- 1074 \<le> m" and "m \<le> 1023"
  shows "mag m (js_add x y)"
proof -
  have fx: "is_finite x" and fy: "is_finite y"
    using assms(1,2) by (simp_all add: mag_def)
  have "\<bar>fval x\<bar> \<le> pow2 (m - 1)" and "\<bar>fval y\<bar> \<le> pow2 (m - 1)"
    using assms(1-4) mag_mono[of j x "m - 1"] mag_mono[of k y "m - 1"]
    by (simp_all add: mag_def)
  then have "\<bar>fval x + fval y\<bar> \<le> 2 * pow2 (m - 1)"
    by linarith
  also have "\<dots> = pow2 m"
    using pow2_double[of "m - 1"] by simp
  finally have "mag m (rnd (fval x + fval y))"
    using assms(5,6) by (rule rnd_mag)
  then show ?thesis
    by (simp add: js_add_finite[OF fx fy])
qed

lemma mag_sub:
  assumes "mag j x" and "mag k y" and "j < m" and "k < m" and "- 1074 \<le> m" and "m \<le> 1023"
  shows "mag m (js_sub x y)"
  unfolding js_sub_def using assms by (intro mag_add[of j x k]) (simp_all add: mag_neg)

lemma mag_mul:
  assumes "mag j x" and "mag k y" and "j + k \<le> m" and "- 1074 \<le> m" and "m \<le> 1023"
  shows "mag m (js_mul x y)"
proof -
  have fx: "is_finite x" and fy: "is_finite y"
    using assms(1,2) by (simp_all add: mag_def)
  have "\<bar>fval x\<bar> * \<bar>fval y\<bar> \<le> pow2 j * pow2 k"
    using assms(1,2) by (intro mult_mono) (simp_all add: mag_def less_imp_le)
  also have "\<dots> = pow2 (j + k)" by (simp add: pow2_add)
  also have "\<dots> \<le> pow2 m" using assms(3) by (rule pow2_mono)
  finally have "\<bar>fval x * fval y\<bar> \<le> pow2 m"
    by (simp add: abs_mult)
  then have "mag m (rnd (fval x * fval y))"
    using assms(4,5) by (rule rnd_mag)
  then show ?thesis
    by (simp add: js_mul_finite[OF fx fy])
qed

lemma away_nonzero: "away k y \<Longrightarrow> is_finite y \<and> \<not> is_zero y \<and> fval y \<noteq> 0"
proof -
  assume a: "away k y"
  then have "0 < \<bar>fval y\<bar>"
    by (intro pow2_le_pos[of k]) (simp add: away_def)
  with a show ?thesis
    by (cases y) (simp_all add: away_def)
qed

lemma mag_div:
  assumes "mag j x" and "away k y" and "j - k \<le> m" and "- 1074 \<le> m" and "m \<le> 1023"
  shows "mag m (js_div x y)"
proof -
  have fx: "is_finite x" using assms(1) by (simp add: mag_def)
  have fy: "is_finite y" and nz: "\<not> is_zero y"
    using away_nonzero[OF assms(2)] by simp_all
  have "\<bar>fval x\<bar> / \<bar>fval y\<bar> \<le> pow2 j / pow2 k"
    using assms(1,2) by (intro frac_le) (simp_all add: mag_def away_def)
  also have "\<dots> = pow2 (j - k)" by (simp add: pow2_diff)
  also have "\<dots> \<le> pow2 m" using assms(3) by (rule pow2_mono)
  finally have "\<bar>fval x / fval y\<bar> \<le> pow2 m"
    by simp
  then have "mag m (rnd (fval x / fval y))"
    using assms(4,5) by (rule rnd_mag)
  then show ?thesis
    by (simp add: js_div_finite[OF fx fy nz])
qed

lemma between_mag: "between k j x \<Longrightarrow> mag j x"
proof -
  assume b: "between k j x"
  then have "0 < fval x"
    by (intro pow2_le_pos[of k]) (simp add: between_def)
  with b show ?thesis by (simp add: between_def mag_def)
qed

lemma between_away: "between k j x \<Longrightarrow> away k x"
proof -
  assume b: "between k j x"
  then have "0 < fval x"
    by (intro pow2_le_pos[of k]) (simp add: between_def)
  with b show ?thesis by (simp add: between_def away_def)
qed

lemma between_pos: "between k j x \<Longrightarrow> is_finite x \<and> 0 < fval x \<and> \<not> is_zero x"
proof -
  assume b: "between k j x"
  then have "0 < fval x"
    by (intro pow2_le_pos[of k]) (simp add: between_def)
  with b show ?thesis by (cases x) (simp_all add: between_def)
qed

lemma between_add:
  assumes "js_ge x (Fin 0)" and "mag j x" and "between a b y"
    and "j < m" and "b < m" and "- 1074 \<le> a" and "m \<le> 1023"
  shows "between a m (js_add x y)"
proof -
  have fx: "is_finite x" using assms(2) by (simp add: mag_def)
  have x0: "0 \<le> fval x"
    using assms(1) fx by (cases x) (simp_all add: js_ge_Fin_zero is_finite_def)
  have fy: "is_finite y" and y0: "0 < fval y" and ynz: "\<not> is_zero y"
    using between_pos[OF assms(3)] by simp_all
  have "fval x \<le> pow2 (m - 1)" and "fval y \<le> pow2 (m - 1)"
    using assms(2-5) mag_mono[of j x "m - 1"] pow2_mono[of b "m - 1"] x0
    by (simp_all add: mag_def between_def)
  then have "fval x + fval y \<le> 2 * pow2 (m - 1)" by linarith
  also have "\<dots> = pow2 m" using pow2_double[of "m - 1"] by simp
  finally have up: "fval x + fval y \<le> pow2 m" .
  have lo: "pow2 a \<le> fval x + fval y"
    using assms(3) x0 by (simp add: between_def)
  have "between a m (rnd (fval x + fval y))"
    using lo up assms(6,7) by (rule rnd_between)
  moreover have "y \<noteq> NZero" using ynz by auto
  ultimately show ?thesis
    by (simp add: js_add_finite[OF fx fy])
qed

lemma between_mul:
  assumes "between a b x" and "between c d y" and "l \<le> a + c" and "b + d \<le> m"
    and "- 1074 \<le> l" and "m \<le> 1023"
  shows "between l m (js_mul x y)"
proof -
  have fx: "is_finite x" and x0: "0 < fval x" and xnz: "\<not> is_zero x"
    using between_pos[OF assms(1)] by simp_all
  have fy: "is_finite y" and y0: "0 < fval y" and ynz: "\<not> is_zero y"
    using between_pos[OF assms(2)] by simp_all
  have "fval x * fval y \<le> pow2 b * pow2 d"
    using assms(1,2) x0 y0 by (intro mult_mono) (simp_all add: between_def less_imp_le)
  also have "\<dots> = pow2 (b + d)" by (simp add: pow2_add)
  also have "\<dots> \<le> pow2 m" using assms(4) by (rule pow2_mono)
  finally have up: "fval x * fval y \<le> pow2 m" .
  have "pow2 l \<le> pow2 (a + c)" using assms(3) by (rule pow2_mono)
  also have "\<dots> = pow2 a * pow2 c" by (rule pow2_add)
  also have "\<dots> \<le> fval x * fval y"
    using assms(1,2) x0 y0 by (intro mult_mono) (simp_all add: between_def less_imp_le)
  finally have lo: "pow2 l \<le> fval x * fval y" .
  have "between l m (rnd (fval x * fval y))"
    using lo up assms(5,6) by (rule rnd_between)
  then show ?thesis
    using xnz ynz by (simp add: js_mul_finite[OF fx fy])
qed

lemma between_div:
  assumes "between a b x" and "between c d y" and "l \<le> a - d" and "b - c \<le> m"
    and "- 1074 \<le> l" and "m \<le> 1023"
  shows "between l m (js_div x y)"
proof -
  have fx: "is_finite x" and x0: "0 < fval x" and xnz: "\<not> is_zero x"
    using between_pos[OF assms(1)] by simp_all
  have fy: "is_finite y" and y0: "0 < fval y" and ynz: "\<not> is_zero y"
    using between_pos[OF assms(2)] by simp_all
  have "fval x / fval y \<le> pow2 b / pow2 c"
    using assms(1,2) x0 y0 by (intro frac_le) (simp_all add: between_def less_imp_le)
  also have "\<dots> = pow2 (b - c)" by (simp add: pow2_diff)
  also have "\<dots> \<le> pow2 m" using assms(4) by (rule pow2_mono)
  finally have up: "fval x / fval y \<le> pow2 m" .
  have "pow2 l \<le> pow2 (a - d)" using assms(3) by (rule pow2_mono)
  also have "\<dots> = pow2 a / pow2 d" by (rule pow2_diff)
  also have "\<dots> \<le> fval x / fval y"
    using assms(1,2) x0 y0 by (intro frac_le) (simp_all add: between_def less_imp_le)
  finally have lo: "pow2 l \<le> fval x / fval y" .
  have "between l m (rnd (fval x / fval y))"
    using lo up assms(5,6) by (rule rnd_between)
  then show ?thesis
    using xnz ynz by (simp add: js_div_finite[OF fx fy ynz])
qed

lemma mag_Fin: "\<bar>q\<bar> \<le> pow2 k \<Longrightarrow> mag k (Fin q)"
  by (simp add: mag_def is_finite_def)

lemma between_Fin: "pow2 k \<le> q \<Longrightarrow> q \<le> pow2 j \<Longrightarrow> between k j (Fin q)"
  by (simp add: between_def is_finite_def)

lemma mag_lit: "\<bar>q\<bar> \<le> pow2 k \<Longrightarrow> - 1074 \<le> k \<Longrightarrow> k \<le> 1023 \<Longrightarrow> mag k (lit q)"
  unfolding lit_def by (rule rnd_mag)

lemma between_lit:
  "pow2 k \<le> q \<Longrightarrow> q \<le> pow2 j \<Longrightarrow> - 1074 \<le> k \<Longrightarrow> j \<le> 1023 \<Longrightarrow> between k j (lit q)"
  unfolding lit_def by (rule rnd_between)

lemma mag_one: "mag 0 (Fin 1)"
  by (rule mag_Fin) (simp add: pow2_def)

lemma mag_two: "mag 1 (Fin 2)"
  by (rule mag_Fin) (simp add: pow2_def)

lemma between_two: "between 1 1 (Fin 2)"
  by (rule between_Fin) (simp_all add: pow2_def)

lemma between_three: "between 1 2 (Fin 3)"
  by (rule between_Fin) (simp_all add: pow2_def)

lemma mag_fifteen: "mag 4 (Fin 15)"
  by (rule mag_Fin) (simp add: pow2_def)

lemma mag_half: "mag 0 (lit (1 / 2))"
  by (rule mag_lit) (simp_all add: pow2_def)

lemma mag_044: "mag 0 (lit (44 / 100))"
  by (rule mag_lit) (simp_all add: pow2_def)

lemma mag_056: "mag 0 (lit (56 / 100))"
  by (rule mag_lit) (simp_all add: pow2_def)

lemma mag_DRB_PCT: "mag 0 DRB_PCT"
  unfolding DRB_PCT_def by (rule mag_lit) (simp_all add: pow2_def)

lemma between_epsilon: "between (- 10) (- 9) (lit (1 / 1000))"
  by (rule between_lit) (simp_all add: pow2_def)

lemma mag_two_thirds: "mag 0 (js_div (Fin 2) (Fin 3))"
  by (rule mag_div[OF mag_two between_away[OF between_three]]) simp_all

lemma stats_fields:
  assumes "nonneg_stats p" and "moderate_stats p"
  shows "js_ge (FGM p) (Fin 0)" "js_ge (FTM p) (Fin 0)"
    "mag 100 (MIN' p)" "mag 100 (FGM p)" "mag 100 (FGA p)" "mag 100 (FTM p)" "mag 100 (FTA p)"
    "mag 100 (FG3M p)" "mag 100 (AST p)" "mag 100 (REB p)" "mag 100 (TOV p)" "mag 100 (STL p)"
    "mag 100 (BLK p)" "mag 100 (PF p)" "mag 100 (PTS p)"
    "away (- 100) (MIN' p)" "away (- 100) (PF p)" "away (- 100) (VOP_denominator p)"
  using assms by (simp_all add: nonneg_stats_def moderate_stats_def)

lemma FGM_epsilon:
  assumes "nonneg_stats p" and "moderate_stats p"
  shows "between (- 10) 101 (js_add (FGM p) (lit (1 / 1000)))"
  by (rule between_add[OF stats_fields(1)[OF assms] stats_fields(4)[OF assms] between_epsilon])
    simp_all

lemma FTM_epsilon:
  assumes "nonneg_stats p" and "moderate_stats p"
  shows "between (- 10) 101 (js_add (FTM p) (lit (1 / 1000)))"
  by (rule between_add[OF stats_fields(2)[OF assms] stats_fields(6)[OF assms] between_epsilon])
    simp_all

lemma assist_ratio_mag:
  assumes "nonneg_stats p" and "moderate_stats p"
  shows "mag 110 (js_div (AST p) (js_add (FGM p) (lit (1 / 1000))))"
  by (rule mag_div[OF stats_fields(9)[OF assms] between_away[OF FGM_epsilon[OF assms]]])
    simp_all

lemma per_factor_mag:
  assumes "nonneg_stats p" and "moderate_stats p"
  shows "mag 221 (per_factor p)"
proof -
  let ?E = "js_add (FGM p) (lit (1 / 1000))"
  let ?F = "js_add (FTM p) (lit (1 / 1000))"
  let ?A = "js_div (AST p) ?E"
  have h: "mag 110 (js_mul (lit (1 / 2)) ?A)"
    by (rule mag_mul[OF mag_half assist_ratio_mag[OF assms]]) simp_all
  have e2: "between (- 9) 102 (js_mul (Fin 2) ?E)"
    by (rule between_mul[OF between_two FGM_epsilon[OF assms]]) simp_all
  have d: "between (- 110) 112 (js_div (js_mul (Fin 2) ?E) ?F)"
    by (rule between_div[OF e2 FTM_epsilon[OF assms]]) simp_all
  have q: "mag 220 (js_div (js_mul (lit (1 / 2)) ?A) (js_div (js_mul (Fin 2) ?E) ?F))"
    by (rule mag_div[OF h between_away[OF d]]) simp_all
  show ?thesis
    unfolding per_factor_def by (rule mag_sub[OF mag_two_thirds q]) simp_all
qed

lemma per_VOP_mag:
  assumes "nonneg_stats p" and "moderate_stats p"
  shows "mag 200 (per_VOP p)"
  unfolding per_VOP_def
  by (rule mag_div[OF stats_fields(15)[OF assms] stats_fields(18)[OF assms]]) simp_all

lemma per_uPER_mag:
  assumes "nonneg_stats p" and "moderate_stats p"
  shows "mag 602 (per_uPER p)"
proof -
  note f = stats_fields[OF assms]
  note V = per_VOP_mag[OF assms]
  let ?E = "js_add (FGM p) (lit (1 / 1000))"
  let ?A = "js_div (AST p) ?E"
  let ?V = "per_VOP p"
  let ?t1 = "FG3M p"
  let ?t2 = "js_mul (js_div (Fin 2) (Fin 3)) (AST p)"
  let ?t3 = "js_mul (js_sub (Fin 2) (js_mul (per_factor p) ?A)) (FGM p)"
  let ?t4 = "js_mul (js_mul (FTM p) (lit (1 / 2)))
               (js_add (js_add (Fin 1) (js_sub (Fin 1) ?A)) (js_mul (js_div (Fin 2) (Fin 3)) ?A))"
  let ?t5 = "js_mul ?V (TOV p)"
  let ?t6 = "js_mul (js_mul ?V DRB_PCT) (js_sub (FGA p) (FGM p))"
  let ?t7 = "js_mul
               (js_mul (js_mul ?V (lit (44 / 100)))
                  (js_add (lit (44 / 100)) (js_mul (lit (56 / 100)) DRB_PCT)))
               (js_sub (FTA p) (FTM p))"
  let ?t8 = "js_mul (js_mul ?V (js_sub (Fin 1) DRB_PCT)) (js_sub (REB p) (REB p))"
  let ?t9 = "js_mul (js_mul ?V DRB_PCT) (REB p)"
  let ?t10 = "js_mul ?V (STL p)"
  let ?t11 = "js_mul (js_mul ?V DRB_PCT) (BLK p)"
  let ?t12 = "js_mul (PF p)
                (js_sub (js_div (FTM p) (PF p))
                   (js_mul (js_mul (lit (44 / 100)) (js_div (FTA p) (PF p))) ?V))"
  have A: "mag 110 ?A"
    by (rule assist_ratio_mag[OF assms])
  have VD: "mag 200 (js_mul ?V DRB_PCT)"
    by (rule mag_mul[OF V mag_DRB_PCT]) simp_all
  have t1: "mag 100 ?t1"
    by (rule f)
  have t2: "mag 100 ?t2"
    by (rule mag_mul[OF mag_two_thirds f(9)]) simp_all
  have "mag 331 (js_mul (per_factor p) ?A)"
    by (rule mag_mul[OF per_factor_mag[OF assms] A]) simp_all
  then have "mag 332 (js_sub (Fin 2) (js_mul (per_factor p) ?A))"
    by (rule mag_sub[OF mag_two]) simp_all
  then have t3: "mag 432 ?t3"
    by (rule mag_mul[OF _ f(4)]) simp_all
  have a1: "mag 100 (js_mul (FTM p) (lit (1 / 2)))"
    by (rule mag_mul[OF f(6) mag_half]) simp_all
  have "mag 111 (js_sub (Fin 1) ?A)"
    by (rule mag_sub[OF mag_one A]) simp_all
  then have a2: "mag 112 (js_add (Fin 1) (js_sub (Fin 1) ?A))"
    by (rule mag_add[OF mag_one]) simp_all
  have a3: "mag 110 (js_mul (js_div (Fin 2) (Fin 3)) ?A)"
    by (rule mag_mul[OF mag_two_thirds A]) simp_all
  have "mag 113 (js_add (js_add (Fin 1) (js_sub (Fin 1) ?A)) (js_mul (js_div (Fin 2) (Fin 3)) ?A))"
    by (rule mag_add[OF a2 a3]) simp_all
  then have t4: "mag 213 ?t4"
    by (rule mag_mul[OF a1]) simp_all
  have t5: "mag 300 ?t5"
    by (rule mag_mul[OF V f(11)]) simp_all
  have "mag 101 (js_sub (FGA p) (FGM p))"
    by (rule mag_sub[OF f(5) f(4)]) simp_all
  then have t6: "mag 301 ?t6"
    by (rule mag_mul[OF VD]) simp_all
  have b1: "mag 200 (js_mul ?V (lit (44 / 100)))"
    by (rule mag_mul[OF V mag_044]) simp_all
  have "mag 0 (js_mul (lit (56 / 100)) DRB_PCT)"
    by (rule mag_mul[OF mag_056 mag_DRB_PCT]) simp_all
  then have b2: "mag 1 (js_add (lit (44 / 100)) (js_mul (lit (56 / 100)) DRB_PCT))"
    by (rule mag_add[OF mag_044]) simp_all
  have b3: "mag 201 (js_mul (js_mul ?V (lit (44 / 100)))
                  (js_add (lit (44 / 100)) (js_mul (lit (56 / 100)) DRB_PCT)))"
    by (rule mag_mul[OF b1 b2]) simp_all
  have "mag 101 (js_sub (FTA p) (FTM p))"
    by (rule mag_sub[OF f(7) f(6)]) simp_all
  then have t7: "mag 302 ?t7"
    by (rule mag_mul[OF b3]) simp_all
  have "mag 1 (js_sub (Fin 1) DRB_PCT)"
    by (rule mag_sub[OF mag_one mag_DRB_PCT]) simp_all
  then have c1: "mag 201 (js_mul ?V (js_sub (Fin 1) DRB_PCT))"
    by (rule mag_mul[OF V]) simp_all
  have "mag 101 (js_sub (REB p) (REB p))"
    by (rule mag_sub[OF f(10) f(10)]) simp_all
  then have t8: "mag 302 ?t8"
    by (rule mag_mul[OF c1]) simp_all
  have t9: "mag 300 ?t9"
    by (rule mag_mul[OF VD f(10)]) simp_all
  have t10: "mag 300 ?t10"
    by (rule mag_mul[OF V f(12)]) simp_all
  have t11: "mag 300 ?t11"
    by (rule mag_mul[OF VD f(13)]) simp_all
  have d1: "mag 200 (js_div (FTM p) (PF p))"
    by (rule mag_div[OF f(6) f(17)]) simp_all
  have "mag 200 (js_div (FTA p) (PF p))"
    by (rule mag_div[OF f(7) f(17)]) simp_all
  then have "mag 200 (js_mul (lit (44 / 100)) (js_div (FTA p) (PF p)))"
    by (rule mag_mul[OF mag_044]) simp_all
  then have "mag 400 (js_mul (js_mul (lit (44 / 100)) (js_div (FTA p) (PF p))) ?V)"
    by (rule mag_mul[OF _ V]) simp_all
  then have "mag 401 (js_sub (js_div (FTM p) (PF p))
                   (js_mul (js_mul (lit (44 / 100)) (js_div (FTA p) (PF p))) ?V))"
    by (rule mag_sub[OF d1]) simp_all
  then have t12: "mag 501 ?t12"
    by (rule mag_mul[OF f(14)]) simp_all
  have "mag 101 (js_add ?t1 ?t2)"
    by (rule mag_add[OF t1 t2]) simp_all
  then have "mag 433 (js_add (js_add ?t1 ?t2) ?t3)"
    by (rule mag_add[OF _ t3]) simp_all
  then have "mag 434 (js_add (js_add (js_add ?t1 ?t2) ?t3) ?t4)"
    by (rule mag_add[OF _ t4]) simp_all
  then have "mag 435 (js_sub (js_add (js_add (js_add ?t1 ?t2) ?t3) ?t4) ?t5)"
    by (rule mag_sub[OF _ t5]) simp_all
  then have "mag 436 (js_sub (js_sub (js_add (js_add (js_add ?t1 ?t2) ?t3) ?t4) ?t5) ?t6)"
    by (rule mag_sub[OF _ t6]) simp_all
  then have "mag 437
      (js_sub (js_sub (js_sub (js_add (js_add (js_add ?t1 ?t2) ?t3) ?t4) ?t5) ?t6) ?t7)"
    by (rule mag_sub[OF _ t7]) simp_all
  then have "mag 438
      (js_add (js_sub (js_sub (js_sub (js_add (js_add (js_add ?t1 ?t2) ?t3) ?t4) ?t5) ?t6) ?t7)
         ?t8)"
    by (rule mag_add[OF _ t8]) simp_all
  then have "mag 439
      (js_add (js_add (js_sub (js_sub (js_sub (js_add (js_add (js_add ?t1 ?t2) ?t3) ?t4) ?t5)
         ?t6) ?t7) ?t8) ?t9)"
    by (rule mag_add[OF _ t9]) simp_all
  then have "mag 440
      (js_add (js_add (js_add (js_sub (js_sub (js_sub (js_add (js_add (js_add ?t1 ?t2) ?t3) ?t4)
         ?t5) ?t6) ?t7) ?t8) ?t9) ?t10)"
    by (rule mag_add[OF _ t10]) simp_all
  then have "mag 441
      (js_add (js_add (js_add (js_add (js_sub (js_sub (js_sub
         (js_add (js_add (js_add ?t1 ?t2) ?t3) ?t4) ?t5) ?t6) ?t7) ?t8) ?t9) ?t10) ?t11)"
    by (rule mag_add[OF _ t11]) simp_all
  then have s: "mag 502
      (js_sub (js_add (js_add (js_add (js_add (js_sub (js_sub (js_sub
         (js_add (js_add (js_add ?t1 ?t2) ?t3) ?t4) ?t5) ?t6) ?t7) ?t8) ?t9) ?t10) ?t11) ?t12)"
    by (rule mag_sub[OF _ t12]) simp_all
  have "mag 100 (js_div (Fin 1) (MIN' p))"
    by (rule mag_div[OF mag_one f(16)]) simp_all
  then have "mag 602 (js_mul (js_div (Fin 1) (MIN' p))
      (js_sub (js_add (js_add (js_add (js_add (js_sub (js_sub (js_sub
         (js_add (js_add (js_add ?t1 ?t2) ?t3) ?t4) ?t5) ?t6) ?t7) ?t8) ?t9) ?t10) ?t11) ?t12))"
    by (rule mag_mul[OF _ s]) simp_all
  then show ?thesis
    unfolding per_uPER_def Let_def .
qed

lemma scaled_uPER_mag:
  assumes "nonneg_stats p" and "moderate_stats p"
  shows "mag 606 (scaled_uPER p)"
  unfolding scaled_uPER_def by (rule mag_mul[OF per_uPER_mag[OF assms] mag_fifteen]) simp_all

lemma mag_not_nan: "mag k x \<Longrightarrow> \<not> is_nan x"
  by (simp add: mag_def is_finite_def)

lemma away_MIN_not_zero: "away k x \<Longrightarrow> \<not> js_eq x (Fin 0)"
  using away_nonzero[of k x] by (cases x) (simp_all add: js_eq_def)

lemma fixture_nonneg: "nonneg_stats fixture_line"
  apply (simp add: nonneg_stats_def fixture_line_def stats0_def)
  apply (simp add: js_eval)
  done

lemma fixture_moderate: "moderate_stats fixture_line"
  apply (simp add: moderate_stats_def VOP_denominator_def fixture_line_def stats0_def)
  apply (simp add: mag_def away_def is_finite_def js_eval)
  done

text \<open>
  C2, amended.  For every statistics record whose thirteen fields are non-negative numbers
  of magnitude at most \<open>2^100\<close>, with \<open>MIN\<close>, \<open>PF\<close> and the computed
  \<open>FGA - REB + TOV + 0.44 * FTA\<close> of magnitude at least \<open>2^-100\<close> (so \<open>MIN > 0\<close>, and both
  denominators are non-zero), \<open>calculatePER\<close> returns a finite value in the closed interval
  \<open>[0, 40]\<close>: no operation overflows, and no quotient divides by zero.
\<close>

theorem calculatePER_range:
  assumes "nonneg_stats p" and "moderate_stats p"
  shows "\<exists>q. calculatePER p = Fin q \<and> 0 \<le> q \<and> q \<le> 40"
proof -
  have "\<not> js_eq (MIN' p) (Fin 0)"
    by (rule away_MIN_not_zero) (rule stats_fields(16)[OF assms])
  then have "calculatePER p = Math_max (Fin 0) (Math_min (Fin 40) (scaled_uPER p))"
    by (rule calculatePER_clamp)
  moreover have "\<not> is_nan (scaled_uPER p)"
    by (rule mag_not_nan) (rule scaled_uPER_mag[OF assms])
  ultimately show ?thesis
    using clamp_range[of "scaled_uPER p"] by simp
qed

theorem calculatePER_range_witness:
  "nonneg_stats fixture_line \<and> moderate_stats fixture_line
   \<and> (\<exists>q. calculatePER fixture_line = Fin q \<and> 0 \<le> q \<and> q \<le> 40)"
  using fixture_nonneg fixture_moderate calculatePER_range[OF fixture_nonneg fixture_moderate]
  by blast

end
